theory Spec2Isabelle
  imports Complex_Main "HOL-Library.AList" "HOL-Library.Multiset" "HOL-Library.Word"
begin

section \<open>The tournament bot of bot.py as state-passing functions\<close>

text \<open>
  The bot keeps its data in two collections, \<open>players_col\<close> (keyed by discord id) and
  \<open>tournaments_col\<close> (keyed by tournament name). Every command reads and writes these
  collections and draws match ids from the global random generator. A command of the
  source is modelled as a function from the world before the command to the reply it
  sends and the world after it. An exception that escapes a command is a reply of its
  own (\<open>Raised\<close>): the writes made before it stay in the world, as they stay in the
  database.

  Python's floats are binary64 numbers: every operation rounds its exact result to the
  nearest double, a tie to the even one, and \<open>**\<close>, the conversion of an integer and
  the division of two integers raise OverflowError when the result is too large for a
  double. What the database does with an update path of several components, and what
  the C library returns for a power, are parameters of the world.
\<close>

subsection \<open>Documents\<close>

text \<open>A player document; its \<open>discord_id\<close> is the key of \<open>players_col\<close>.\<close>

record player =
  name :: string
  wins :: int
  losses :: int
  elo :: int

datatype bracket = Upper | Lower

text \<open>
  The value stored for a team: the list of the ids of its players, or a value that is not
  a list of ids (a nested document, an array with an array in it), which only a write
  to a path of several components can store.
\<close>

datatype roster = Roster "int list" | Foreign

text \<open>
  A match object. A key the source leaves out of the dictionary reads as \<open>None\<close> through
  \<open>.get\<close>: \<open>bye\<close> is \<open>False\<close> for a match created without the key.
\<close>

record match =
  match_id :: string
  teamA :: string
  teamB :: "string option"
  winner :: "string option"
  bracket :: bracket
  bye :: bool

datatype status = Setup | Running | Finished

text \<open>
  A tournament document; its \<open>name\<close> is the key of \<open>tournaments_col\<close>. \<open>teams\<close> is a
  dictionary in insertion order: an association list whose keys are distinct.
\<close>

record tournament =
  teams :: "(string \<times> roster) list"
  status :: status
  pending_upper :: "string list"
  pending_lower :: "string list"
  matches :: "match list"
  upper_rounds :: "string list list"
  lower_rounds :: "string list list"
  final :: "string option"
  champion :: "string option"

datatype exn = ZeroDivisionError | AttributeError | OverflowError | ValueError | TypeError | WriteError

text \<open>
  The world: both collections, the values \<open>random.getrandbits(64)\<close> is going to return
  (the next one first), and three functions of the environment that the source calls
  and does not define:

  \<^item> \<open>libm_pow10 y\<close> is what the C library's \<open>pow(10.0, y)\<close> returns for a finite \<open>y\<close>
    that is not zero: a double, or \<open>None\<close> when the library answers an infinity, on
    which Python raises OverflowError;

  \<^item> \<open>store_set_path team_name player_ids teams\<close> is what the database makes of the
    field \<open>teams\<close> on the update \<open>{"$set": {"teams.<team_name>": player_ids}}\<close> when
    \<open>team_name\<close> is not one plain field name, so that the path has several components
    or an operator in it: the new value of \<open>teams\<close>, or the error it answers;

  \<^item> \<open>foreign_adjust winner_pids loser_pids players\<close> is what \<open>adjust_elo_for_match\<close>
    does to the player documents, and the exception it raises if any, when one of its
    arguments is not a list of ids.
\<close>

record world =
  players_col :: "int \<Rightarrow> player option"
  tournaments_col :: "string \<Rightarrow> tournament option"
  randbits :: "nat \<Rightarrow> 64 word"
  libm_pow10 :: "real \<Rightarrow> real option"
  store_set_path :: "string \<Rightarrow> int list \<Rightarrow> (string \<times> roster) list \<Rightarrow> exn + (string \<times> roster) list"
  foreign_adjust :: "roster \<Rightarrow> roster \<Rightarrow> (int \<Rightarrow> player option) \<Rightarrow> exn option \<times> (int \<Rightarrow> player option)"

text \<open>
  The replies of the commands, named by the kind of failure or success they report:
  \<open>NotFound\<close> is "Tournament not found." and "Match not found.", \<open>AlreadyExists\<close> is
  "Tournament with this name already exists.", \<open>InvalidState\<close> is "Need at least 2
  teams.", \<open>AlreadyResolved\<close> is "This match already has a reported winner." and
  \<open>Validation\<close> is "One or both team names not found in tournament". \<open>Created\<close>,
  \<open>Added\<close> (with the number of players) and \<open>Started\<close> (with the matches of the round)
  are the answers of \<open>createtourney\<close>, \<open>addteam\<close> and \<open>starttourney\<close>; \<open>Recorded\<close> is
  "Result recorded ..." and \<open>Champion\<close> is "Tournament finished! Champion: ...", the two
  answers of a \<open>matchresult\<close> that is carried out; \<open>Done\<close> is the answer of the player
  commands.
\<close>

datatype reply =
    NotFound
  | AlreadyExists
  | InvalidState
  | AlreadyResolved
  | Validation
  | Created
  | Added nat
  | Started "match list"
  | Recorded
  | Champion "string option"
  | Done
  | Raised exn

subsection \<open>Python values\<close>

text \<open>The truth value of an optional string: \<open>None\<close> and the empty string are false.\<close>

definition truthy :: "string option \<Rightarrow> bool" where
  "truthy v = (case v of None \<Rightarrow> False | Some s \<Rightarrow> s \<noteq> [])"

definition digit_char :: "nat \<Rightarrow> char" where
  "digit_char d = ''0123456789'' ! d"

function str_nat :: "nat \<Rightarrow> string" where
  "str_nat n = (if n < 10 then [digit_char n] else str_nat (n div 10) @ [digit_char (n mod 10)])"
  by pat_completeness auto
termination
  by (relation "measure id") auto

declare str_nat.simps [simp del]

definition str_int :: "int \<Rightarrow> string" where
  "str_int i = (if i < 0 then CHR ''-'' # str_nat (nat (- i)) else str_nat (nat i))"

text \<open>Rounding to the nearest integer, a tie to the even one.\<close>

definition py_round :: "real \<Rightarrow> int" where
  "py_round x =
     (let f = \<lfloor>x\<rfloor>; r = x - of_int f
      in if r < 1 / 2 then f else if 1 / 2 < r then f + 1 else if even f then f else f + 1)"

subsection \<open>Python floats\<close>

text \<open>
  A float is a binary64 number: a finite one (a real number with a significand of 53
  bits and an exponent of the unit in the last place of at least -1074; the two zeros
  are not told apart, no operation below depends on the sign of a zero), an infinity or
  a NaN.
\<close>

datatype xfloat = Fin real | PInf | MInf | NaN

text \<open>
  \<open>fl x\<close> is the double nearest to \<open>x\<close>, a tie going to the even significand: the
  multiple of the unit in the last place of the binade of \<open>x\<close> that is nearest to \<open>x\<close>.
  Below \<open>2 ^ -1022\<close> the doubles are the multiples of \<open>2 ^ -1074\<close>.
\<close>

definition fl :: "real \<Rightarrow> real" where
  "fl x =
     (if x = 0 then 0
      else (let e = max \<lfloor>log 2 \<bar>x\<bar>\<rfloor> (- 1022);
                q = 2 powr real_of_int (e - 52)
            in real_of_int (py_round (x / q)) * q))"

text \<open>
  The largest double is \<open>2 ^ 1024 - 2 ^ 971\<close>; a result that is at least \<open>huge\<close>, halfway
  between it and \<open>2 ^ 1024\<close>, rounds to an infinity.
\<close>

definition huge :: real where
  "huge = 2 ^ 1024 - 2 ^ 970"

definition fl_ext :: "real \<Rightarrow> xfloat" where
  "fl_ext x = (if huge \<le> x then PInf else if x \<le> - huge then MInf else Fin (fl x))"

definition signed_inf :: "real \<Rightarrow> xfloat" where
  "signed_inf s = (if 0 < s then PInf else if s < 0 then MInf else NaN)"

fun x_neg :: "xfloat \<Rightarrow> xfloat" where
  "x_neg (Fin a) = Fin (- a)"
| "x_neg PInf = MInf"
| "x_neg MInf = PInf"
| "x_neg NaN = NaN"

text \<open>\<open>a + b\<close>, \<open>a - b\<close> and \<open>a * b\<close> on floats; they raise nothing.\<close>

fun x_add :: "xfloat \<Rightarrow> xfloat \<Rightarrow> xfloat" where
  "x_add (Fin a) (Fin b) = fl_ext (a + b)"
| "x_add (Fin a) b = b"
| "x_add a (Fin b) = a"
| "x_add PInf PInf = PInf"
| "x_add MInf MInf = MInf"
| "x_add a b = NaN"

definition x_sub :: "xfloat \<Rightarrow> xfloat \<Rightarrow> xfloat" where
  "x_sub a b = x_add a (x_neg b)"

fun x_mul :: "xfloat \<Rightarrow> xfloat \<Rightarrow> xfloat" where
  "x_mul (Fin a) (Fin b) = fl_ext (a * b)"
| "x_mul NaN b = NaN"
| "x_mul a NaN = NaN"
| "x_mul (Fin a) PInf = signed_inf a"
| "x_mul (Fin a) MInf = signed_inf (- a)"
| "x_mul PInf (Fin b) = signed_inf b"
| "x_mul MInf (Fin b) = signed_inf (- b)"
| "x_mul PInf PInf = PInf"
| "x_mul MInf MInf = PInf"
| "x_mul PInf MInf = MInf"
| "x_mul MInf PInf = MInf"

text \<open>\<open>a / b\<close> on floats raises ZeroDivisionError when \<open>b\<close> is a zero.\<close>

fun x_div :: "xfloat \<Rightarrow> xfloat \<Rightarrow> exn + xfloat" where
  "x_div a (Fin b) =
     (if b = 0 then Inl ZeroDivisionError
      else Inr (case a of
                  Fin a' \<Rightarrow> fl_ext (a' / b)
                | PInf \<Rightarrow> signed_inf b
                | MInf \<Rightarrow> signed_inf (- b)
                | NaN \<Rightarrow> NaN))"
| "x_div a NaN = Inr NaN"
| "x_div (Fin a) b = Inr (Fin 0)"
| "x_div a b = Inr NaN"

text \<open>
  The conversion of an integer that meets a float in an operation: OverflowError ("int
  too large to convert to float") when the nearest double would be an infinity.
\<close>

definition int_to_float :: "int \<Rightarrow> exn + xfloat" where
  "int_to_float n =
     (if huge \<le> \<bar>real_of_int n\<bar> then Inl OverflowError else Inr (Fin (fl (real_of_int n))))"

text \<open>
  \<open>a / b\<close> on two integers: the double nearest to the exact quotient, ZeroDivisionError
  for \<open>b = 0\<close>, OverflowError ("integer division result too large for a float").
\<close>

definition int_true_div :: "int \<Rightarrow> int \<Rightarrow> exn + xfloat" where
  "int_true_div a b =
     (if b = 0 then Inl ZeroDivisionError
      else if huge \<le> \<bar>real_of_int a / real_of_int b\<bar> then Inl OverflowError
      else Inr (Fin (fl (real_of_int a / real_of_int b))))"

text \<open>
  \<open>10 ** y\<close> for a float \<open>y\<close>, which is \<open>float_pow(10.0, y)\<close>: 1.0 for a zero exponent and
  the limits for an infinite one, without a call of the C library; otherwise the value
  of the library's \<open>pow\<close>, and OverflowError when that value is an infinity.
\<close>

definition float_pow10 :: "(real \<Rightarrow> real option) \<Rightarrow> xfloat \<Rightarrow> exn + xfloat" where
  "float_pow10 lib y =
     (case y of
        Fin v \<Rightarrow> if v = 0 then Inr (Fin 1)
                 else (case lib v of None \<Rightarrow> Inl OverflowError | Some p \<Rightarrow> Inr (Fin p))
      | PInf \<Rightarrow> Inr PInf
      | MInf \<Rightarrow> Inr (Fin 0)
      | NaN \<Rightarrow> Inr NaN)"

text \<open>
  \<open>round(x)\<close> of a float: OverflowError for an infinity and ValueError for a NaN.
\<close>

definition float_round :: "xfloat \<Rightarrow> exn + int" where
  "float_round x =
     (case x of
        Fin v \<Rightarrow> Inr (py_round v)
      | PInf \<Rightarrow> Inl OverflowError
      | MInf \<Rightarrow> Inl OverflowError
      | NaN \<Rightarrow> Inl ValueError)"

text \<open>
  An integer the database can store: a BSON integer has at most 64 bits, and the driver
  raises OverflowError on any other one.
\<close>

definition int64 :: "int \<Rightarrow> bool" where
  "int64 v \<longleftrightarrow> - (2 ^ 63) \<le> v \<and> v < 2 ^ 63"

subsection \<open>Utility helpers\<close>

definition K_FACTOR :: int where
  "K_FACTOR = 32"

definition ensure_player_doc :: "int \<Rightarrow> string option \<Rightarrow> world \<Rightarrow> player \<times> world" where
  "ensure_player_doc pid display_name w =
     (case players_col w pid of
        None \<Rightarrow>
          (let base = \<lparr>name = (case display_name of
                                  None \<Rightarrow> str_int pid
                                | Some d \<Rightarrow> if d \<noteq> [] then d else str_int pid),
                       wins = 0, losses = 0, elo = 1200\<rparr>
           in (base, w\<lparr>players_col := (players_col w)(pid \<mapsto> base)\<rparr>))
      | Some doc \<Rightarrow>
          (case display_name of
             None \<Rightarrow> (doc, w)
           | Some d \<Rightarrow>
               if d \<noteq> [] \<and> name doc \<noteq> d
               then (doc\<lparr>name := d\<rparr>, w\<lparr>players_col := (players_col w)(pid \<mapsto> doc\<lparr>name := d\<rparr>)\<rparr>)
               else (doc, w)))"

text \<open>The first loop of \<open>adjust_elo_for_match\<close>: \<open>players[pid] = ensure_player_doc(pid)\<close>.\<close>

fun fetch_docs :: "int list \<Rightarrow> (int \<Rightarrow> player option) \<times> world \<Rightarrow> (int \<Rightarrow> player option) \<times> world" where
  "fetch_docs [] (players, w) = (players, w)"
| "fetch_docs (pid # pids) (players, w) =
     (let (doc, w') = ensure_player_doc pid None w
      in fetch_docs pids (players(pid \<mapsto> doc), w'))"

text \<open>\<open>players[p]["elo"]\<close>; every id read has been stored by \<open>fetch_docs\<close>.\<close>

definition elo_in :: "(int \<Rightarrow> player option) \<Rightarrow> int \<Rightarrow> int" where
  "elo_in players p = elo (the (players p))"

text \<open>
  \<open>players_col.update_one({"discord_id": pid}, {"$inc": {field: 1}, "$set": {"elo": new_elo}})\<close>:
  nothing happens when no document has the id.
\<close>

definition inc_wins_set_elo :: "int \<Rightarrow> int \<Rightarrow> world \<Rightarrow> world" where
  "inc_wins_set_elo pid new_elo w =
     (case players_col w pid of
        None \<Rightarrow> w
      | Some doc \<Rightarrow> w\<lparr>players_col := (players_col w)(pid \<mapsto> doc\<lparr>wins := wins doc + 1, elo := new_elo\<rparr>)\<rparr>)"

definition inc_losses_set_elo :: "int \<Rightarrow> int \<Rightarrow> world \<Rightarrow> world" where
  "inc_losses_set_elo pid new_elo w =
     (case players_col w pid of
        None \<Rightarrow> w
      | Some doc \<Rightarrow> w\<lparr>players_col := (players_col w)(pid \<mapsto> doc\<lparr>losses := losses doc + 1, elo := new_elo\<rparr>)\<rparr>)"

text \<open>
  The last loop of \<open>adjust_elo_for_match\<close>: persist and increment wins or losses. The
  loop stops at the first rating that the database cannot store.
\<close>

fun persist :: "int list \<Rightarrow> (int \<times> int) list \<Rightarrow> world \<Rightarrow> exn option \<times> world" where
  "persist winner_ids [] w = (None, w)"
| "persist winner_ids ((pid, new_elo) # updates) w =
     (if \<not> int64 new_elo then (Some OverflowError, w)
      else persist winner_ids updates
             (if pid \<in> set winner_ids then inc_wins_set_elo pid new_elo w
              else inc_losses_set_elo pid new_elo w))"

text \<open>
  \<open>1 / (1 + 10 ** ((lose_avg - win_avg)/400))\<close>, the value of \<open>expected_win\<close>. The
  integers 1 and 400 are doubles.
\<close>

definition expected :: "(real \<Rightarrow> real option) \<Rightarrow> xfloat \<Rightarrow> xfloat \<Rightarrow> exn + xfloat" where
  "expected lib win_avg lose_avg =
     (case x_div (x_sub lose_avg win_avg) (Fin 400) of
        Inl e \<Rightarrow> Inl e
      | Inr y \<Rightarrow>
          (case float_pow10 lib y of
             Inl e \<Rightarrow> Inl e
           | Inr p \<Rightarrow> x_div (Fin 1) (x_add (Fin 1) p)))"

text \<open>
  \<open>round(old + k * score)\<close>, where \<open>score\<close> is the float \<open>1 - expected_win\<close> or
  \<open>0 - expected_lose\<close>: \<open>k\<close> is converted for the product and \<open>old\<close> for the sum.
\<close>

definition new_rating :: "int \<Rightarrow> int \<Rightarrow> xfloat \<Rightarrow> exn + int" where
  "new_rating old k score =
     (case int_to_float k of
        Inl e \<Rightarrow> Inl e
      | Inr kf \<Rightarrow>
          (case int_to_float old of
             Inl e \<Rightarrow> Inl e
           | Inr oldf \<Rightarrow> float_round (x_add oldf (x_mul kf score))))"

text \<open>One of the two loops that fill the list \<open>updates\<close>.\<close>

fun rating_loop :: "(int \<Rightarrow> player option) \<Rightarrow> int \<Rightarrow> xfloat \<Rightarrow> int list \<Rightarrow> exn + (int \<times> int) list" where
  "rating_loop players k score [] = Inr []"
| "rating_loop players k score (pid # pids) =
     (case new_rating (elo_in players pid) k score of
        Inl e \<Rightarrow> Inl e
      | Inr new \<Rightarrow>
          (case rating_loop players k score pids of
             Inl e \<Rightarrow> Inl e
           | Inr updates \<Rightarrow> Inr ((pid, new) # updates)))"

text \<open>
  The lines of \<open>adjust_elo_for_match\<close> between the fetch and the persist loop: the two
  averages, \<open>expected_win\<close>, \<open>expected_lose\<close> and the list \<open>updates\<close>, or the first
  exception raised on the way. The division by \<open>len(winner_ids)\<close>, then the one by
  \<open>len(loser_ids)\<close>, raises ZeroDivisionError on an empty team.
\<close>

definition rating_updates ::
  "(real \<Rightarrow> real option) \<Rightarrow> (int \<Rightarrow> player option) \<Rightarrow> int list \<Rightarrow> int list \<Rightarrow> int \<Rightarrow> exn + (int \<times> int) list" where
  "rating_updates lib players winner_ids loser_ids k =
     (case int_true_div (sum_list (map (elo_in players) winner_ids)) (int (length winner_ids)) of
        Inl e \<Rightarrow> Inl e
      | Inr win_avg \<Rightarrow>
     (case int_true_div (sum_list (map (elo_in players) loser_ids)) (int (length loser_ids)) of
        Inl e \<Rightarrow> Inl e
      | Inr lose_avg \<Rightarrow>
     (case expected lib win_avg lose_avg of
        Inl e \<Rightarrow> Inl e
      | Inr expected_win \<Rightarrow>
          (let expected_lose = x_sub (Fin 1) expected_win
           in (case rating_loop players k (x_sub (Fin 1) expected_win) winner_ids of
                 Inl e \<Rightarrow> Inl e
               | Inr winners \<Rightarrow>
                   (case rating_loop players k (x_sub (Fin 0) expected_lose) loser_ids of
                      Inl e \<Rightarrow> Inl e
                    | Inr losers \<Rightarrow> Inr (winners @ losers)))))))"

text \<open>
  \<open>adjust_elo_for_match\<close>. An exception of the computation leaves the world as the
  fetch made it: the player documents are there, no rating is written.
\<close>

definition adjust_elo_for_match :: "int list \<Rightarrow> int list \<Rightarrow> int \<Rightarrow> world \<Rightarrow> exn option \<times> world" where
  "adjust_elo_for_match winner_ids loser_ids k w =
     (let (players, w1) = fetch_docs (winner_ids @ loser_ids) (Map.empty, w)
      in (case rating_updates (libm_pow10 w) players winner_ids loser_ids k of
            Inl e \<Rightarrow> (Some e, w1)
          | Inr updates \<Rightarrow> persist winner_ids updates w1))"

text \<open>
  The call \<open>adjust_elo_for_match(winner_pids, loser_pids)\<close> of \<open>matchresult\<close>, whose
  arguments are the values stored for the two teams.
\<close>

definition adjust_elo_for_rosters :: "roster \<Rightarrow> roster \<Rightarrow> world \<Rightarrow> exn option \<times> world" where
  "adjust_elo_for_rosters winner_pids loser_pids w =
     (case (winner_pids, loser_pids) of
        (Roster winner_ids, Roster loser_ids) \<Rightarrow> adjust_elo_for_match winner_ids loser_ids K_FACTOR w
      | _ \<Rightarrow> (let (e, players) = foreign_adjust w winner_pids loser_pids (players_col w)
              in (e, w\<lparr>players_col := players\<rparr>)))"

subsection \<open>Tournament helpers\<close>

text \<open>\<open>make_match_id\<close>: the first twelve characters of the decimal form of 64 random bits.\<close>

definition make_match_id :: "world \<Rightarrow> string \<times> world" where
  "make_match_id w =
     (take 12 (str_nat (unat (randbits w 0))), w\<lparr>randbits := (\<lambda>i. randbits w (Suc i))\<rparr>)"

definition new_match :: "string \<Rightarrow> string \<Rightarrow> string \<Rightarrow> bracket \<Rightarrow> match" where
  "new_match i a b br =
     \<lparr>match_id = i, teamA = a, teamB = Some b, winner = None, bracket = br, bye = False\<rparr>"

definition bye_match :: "string \<Rightarrow> string \<Rightarrow> bracket \<Rightarrow> match" where
  "bye_match i t br =
     \<lparr>match_id = i, teamA = t, teamB = None, winner = Some t, bracket = br, bye = True\<rparr>"

text \<open>
  The loop of \<open>create_round_matches\<close>. \<open>shuffled.pop()\<close> takes the last element, so the
  loop runs over the reversed list, whose head is the element popped next.
\<close>

fun pair_round :: "string list \<Rightarrow> world \<Rightarrow> match list \<times> world" where
  "pair_round (a # b # stack) w =
     (let (i, w1) = make_match_id w;
          (ms, w2) = pair_round stack w1
      in (new_match i a b Upper # ms, w2))"
| "pair_round [bye_team] w =
     (let (i, w1) = make_match_id w in ([bye_match i bye_team Upper], w1))"
| "pair_round [] w = ([], w)"

text \<open>
  \<open>create_round_matches\<close>; \<open>shuffle\<close> is the permutation \<open>random.shuffle\<close> applies to
  the copy of the list.
\<close>

definition create_round_matches :: "(string list \<Rightarrow> string list) \<Rightarrow> string list \<Rightarrow> world \<Rightarrow> match list \<times> world" where
  "create_round_matches shuffle team_ids w = pair_round (rev (shuffle team_ids)) w"

definition empty_tournament :: tournament where
  "empty_tournament =
     \<lparr>teams = [], status = Setup, pending_upper = [], pending_lower = [], matches = [],
      upper_rounds = [], lower_rounds = [], final = None, champion = None\<rparr>"

definition create_tournament_doc :: "string \<Rightarrow> world \<Rightarrow> world" where
  "create_tournament_doc nm w = w\<lparr>tournaments_col := (tournaments_col w)(nm \<mapsto> empty_tournament)\<rparr>"

definition get_tournament :: "string \<Rightarrow> world \<Rightarrow> tournament option" where
  "get_tournament nm w = tournaments_col w nm"

text \<open>
  \<open>tournaments_col.update_one({"name": nm}, ...)\<close>: the update \<open>f\<close> is applied to the
  document of that name, and nothing happens when there is none.
\<close>

definition update_one :: "string \<Rightarrow> (tournament \<Rightarrow> tournament) \<Rightarrow> world \<Rightarrow> world" where
  "update_one nm f w =
     (case tournaments_col w nm of
        None \<Rightarrow> w
      | Some t \<Rightarrow> w\<lparr>tournaments_col := (tournaments_col w)(nm \<mapsto> f t)\<rparr>)"

definition append_match_to_tourney :: "string \<Rightarrow> match \<Rightarrow> world \<Rightarrow> world" where
  "append_match_to_tourney nm m w = update_one nm (\<lambda>t. t\<lparr>matches := matches t @ [m]\<rparr>) w"

definition push_round :: "string \<Rightarrow> bracket \<Rightarrow> string list \<Rightarrow> world \<Rightarrow> world" where
  "push_round nm br round_match_ids w =
     (if br = Upper
      then update_one nm (\<lambda>t. t\<lparr>upper_rounds := upper_rounds t @ [round_match_ids]\<rparr>) w
      else update_one nm (\<lambda>t. t\<lparr>lower_rounds := lower_rounds t @ [round_match_ids]\<rparr>) w)"

definition find_match :: "tournament \<Rightarrow> string \<Rightarrow> match option" where
  "find_match tourney i = find (\<lambda>m. match_id m = i) (matches tourney)"

text \<open>
  One pass over a pending pool in \<open>try_pair_pending\<close>: the \<open>while len(pool) >= 2\<close> loop
  (\<open>pool.pop(0)\<close> twice, a new match, its round), then the bye for a single team left.
  The state of the loop is the local list, the flag \<open>updated\<close> and the world.
\<close>

fun pair_pending :: "string \<Rightarrow> bracket \<Rightarrow> string list \<Rightarrow> bool \<Rightarrow> world \<Rightarrow> string list \<times> bool \<times> world" where
  "pair_pending nm br (a # b # pool) updated w =
     (let (i, w1) = make_match_id w;
          w2 = append_match_to_tourney nm (new_match i a b br) w1;
          w3 = push_round nm br [i] w2
      in pair_pending nm br pool True w3)"
| "pair_pending nm br [bye_team] updated w =
     (let (i, w1) = make_match_id w;
          w2 = append_match_to_tourney nm (bye_match i bye_team br) w1;
          w3 = push_round nm br [i] w2
      in ([], True, w3))"
| "pair_pending nm br [] updated w = ([], updated, w)"

text \<open>\<open>m["teamA"] if m["teamB"] == m["winner"] else m["teamB"]\<close>\<close>

definition loser_of :: "match \<Rightarrow> string option" where
  "loser_of m = (if teamB m = winner m then Some (teamA m) else teamB m)"

text \<open>The loop over the match history that collects the set \<open>eliminated\<close>.\<close>

fun eliminated_loop :: "match list \<Rightarrow> string set \<Rightarrow> string set" where
  "eliminated_loop [] eliminated = eliminated"
| "eliminated_loop (m # ms) eliminated =
     eliminated_loop ms
       (if bracket m = Lower \<and> winner m \<noteq> None \<and> \<not> bye m
        then (case loser_of m of
                None \<Rightarrow> eliminated
              | Some loser \<Rightarrow> if loser \<noteq> [] then insert loser eliminated else eliminated)
        else eliminated)"

definition eliminated :: "tournament \<Rightarrow> string set" where
  "eliminated t = eliminated_loop (matches t) {}"

definition alive :: "tournament \<Rightarrow> string list" where
  "alive t = filter (\<lambda>tm. tm \<notin> eliminated t) (map fst (teams t))"

text \<open>
  \<open>try_pair_pending\<close>. The document read again after the pairing is there: no update
  removes a document.
\<close>

definition try_pair_pending :: "string \<Rightarrow> world \<Rightarrow> world" where
  "try_pair_pending nm w =
     (case get_tournament nm w of
        None \<Rightarrow> w
      | Some tourney \<Rightarrow>
          (let (pu, updated1, w1) = pair_pending nm Upper (pending_upper tourney) False w;
               (pl, updated2, w2) = pair_pending nm Lower (pending_lower tourney) updated1 w1;
               w3 = (if updated2
                     then update_one nm (\<lambda>t. t\<lparr>pending_upper := pu, pending_lower := pl\<rparr>) w2
                     else w2)
           in (case get_tournament nm w3 of
                 None \<Rightarrow> w3
               | Some t \<Rightarrow>
                   (case alive t of
                      [champ] \<Rightarrow> update_one nm (\<lambda>t. t\<lparr>status := Finished, champion := Some champ\<rparr>) w3
                    | _ \<Rightarrow> w3))))"

subsection \<open>Commands\<close>

definition register :: "int \<Rightarrow> string \<Rightarrow> world \<Rightarrow> reply \<times> world" where
  "register pid display_name w = (Done, snd (ensure_player_doc pid (Some display_name) w))"

definition profile :: "int \<Rightarrow> string \<Rightarrow> world \<Rightarrow> reply \<times> world" where
  "profile pid display_name w = (Done, snd (ensure_player_doc pid (Some display_name) w))"

definition set_elo :: "int \<Rightarrow> int \<Rightarrow> world \<Rightarrow> world" where
  "set_elo pid v w =
     (case players_col w pid of
        None \<Rightarrow> w
      | Some doc \<Rightarrow> w\<lparr>players_col := (players_col w)(pid \<mapsto> doc\<lparr>elo := v\<rparr>)\<rparr>)"

text \<open>\<open>setelo\<close>; the update raises OverflowError on a value of more than 64 bits.\<close>

definition setelo :: "int \<Rightarrow> string \<Rightarrow> int \<Rightarrow> world \<Rightarrow> reply \<times> world" where
  "setelo pid display_name v w =
     (let w1 = snd (ensure_player_doc pid (Some display_name) w)
      in if int64 v then (Done, set_elo pid v w1) else (Raised OverflowError, w1))"

definition resetelo :: "int \<Rightarrow> string \<Rightarrow> world \<Rightarrow> reply \<times> world" where
  "resetelo pid display_name w = (Done, set_elo pid 1200 (snd (ensure_player_doc pid (Some display_name) w)))"

definition createtourney :: "string \<Rightarrow> world \<Rightarrow> reply \<times> world" where
  "createtourney nm w =
     (case get_tournament nm w of
        Some existing \<Rightarrow> (AlreadyExists, w)
      | None \<Rightarrow> (Created, create_tournament_doc nm w))"

text \<open>
  A team name that is one plain field name: it is not empty, has no dot and no NUL in
  it and does not start with a dollar sign. For such a name the path
  \<open>teams.<team_name>\<close> is the field \<open>team_name\<close> of the document \<open>teams\<close>.
\<close>

definition plain_field_name :: "string \<Rightarrow> bool" where
  "plain_field_name s \<longleftrightarrow>
     s \<noteq> [] \<and> CHR ''.'' \<notin> set s \<and> CHR 0x00 \<notin> set s \<and> hd s \<noteq> CHR ''$''"

text \<open>
  \<open>addteam\<close>; a member is a discord id and a display name. For a plain team name the
  update sets the field of that name, replacing the value it has or adding the field
  after the others. For any other name the database decides (\<open>store_set_path\<close>).
\<close>

definition addteam :: "string \<Rightarrow> string \<Rightarrow> (int \<times> string) list \<Rightarrow> world \<Rightarrow> reply \<times> world" where
  "addteam tourney_name team_name members w =
     (case get_tournament tourney_name w of
        None \<Rightarrow> (NotFound, w)
      | Some tourney \<Rightarrow>
          (let player_ids = map fst members;
               w1 = fold (\<lambda>m v. snd (ensure_player_doc (fst m) (Some (snd m)) v)) members w
           in if plain_field_name team_name
              then (Added (length player_ids),
                    update_one tourney_name
                      (\<lambda>t. t\<lparr>teams := AList.update team_name (Roster player_ids) (teams t)\<rparr>) w1)
              else (case store_set_path w team_name player_ids (teams tourney) of
                      Inl e \<Rightarrow> (Raised e, w1)
                    | Inr new_teams \<Rightarrow>
                        (Added (length player_ids),
                         update_one tourney_name (\<lambda>t. t\<lparr>teams := new_teams\<rparr>) w1))))"

definition starttourney :: "(string list \<Rightarrow> string list) \<Rightarrow> string \<Rightarrow> world \<Rightarrow> reply \<times> world" where
  "starttourney shuffle tourney_name w =
     (case get_tournament tourney_name w of
        None \<Rightarrow> (NotFound, w)
      | Some tourney \<Rightarrow>
          (let team_names = map fst (teams tourney)
           in if length team_names < 2 then (InvalidState, w)
              else
                (let (ms, w1) = create_round_matches shuffle team_names w;
                     w2 = fold (append_match_to_tourney tourney_name) ms w1;
                     w3 = update_one tourney_name
                            (\<lambda>t. t\<lparr>status := Running, pending_upper := [], pending_lower := []\<rparr>) w2;
                     round_ids = map match_id ms;
                     w4 = update_one tourney_name
                            (\<lambda>t. t\<lparr>upper_rounds := upper_rounds t @ [round_ids]\<rparr>) w3
                 in (Started ms, w4))))"

text \<open>
  \<open>{"$set": {"matches.$.winner": winner_team}}\<close> with the query \<open>matches.id\<close>: the
  first match of the array that has the id gets the winner.
\<close>

fun set_winner :: "string \<Rightarrow> string \<Rightarrow> match list \<Rightarrow> match list" where
  "set_winner i v [] = []"
| "set_winner i v (m # ms) =
     (if match_id m = i then m\<lparr>winner := Some v\<rparr> # ms else m # set_winner i v ms)"

text \<open>
  \<open>matchresult\<close>. The two membership tests and the two lookups \<open>teams[winner_team]\<close>,
  \<open>teams[loser_team]\<close> are one case distinction on both lookups.
\<close>

definition matchresult :: "string \<Rightarrow> string \<Rightarrow> string \<Rightarrow> string \<Rightarrow> world \<Rightarrow> reply \<times> world" where
  "matchresult tourney_name i winner_team loser_team w =
     (case get_tournament tourney_name w of
        None \<Rightarrow> (NotFound, w)
      | Some tourney \<Rightarrow>
          (case find_match tourney i of
             None \<Rightarrow> (NotFound, w)
           | Some m \<Rightarrow>
               if truthy (winner m) then (AlreadyResolved, w)
               else
                 (case (map_of (teams tourney) winner_team, map_of (teams tourney) loser_team) of
                    (Some winner_pids, Some loser_pids) \<Rightarrow>
                      (let w1 = update_one tourney_name
                                  (\<lambda>t. t\<lparr>matches := set_winner i winner_team (matches t)\<rparr>) w
                       in (case get_tournament tourney_name w1 of
                             None \<Rightarrow> (Raised AttributeError, w1)
                           | Some tdoc \<Rightarrow>
                               (let w2 = update_one tourney_name
                                           (\<lambda>t. t\<lparr>pending_lower := pending_lower tdoc @ [loser_team]\<rparr>) w1;
                                    w3 = update_one tourney_name
                                           (\<lambda>t. t\<lparr>pending_upper := pending_upper tdoc @ [winner_team]\<rparr>) w2;
                                    (e, w4) = adjust_elo_for_rosters winner_pids loser_pids w3
                                in (case e of
                                      Some x \<Rightarrow> (Raised x, w4)
                                    | None \<Rightarrow>
                                        (let w5 = try_pair_pending tourney_name w4
                                         in (case get_tournament tourney_name w5 of
                                               None \<Rightarrow> (Raised AttributeError, w5)
                                             | Some updated \<Rightarrow>
                                                 if status updated = Finished
                                                 then (Champion (champion updated), w5)
                                                 else (Recorded, w5)))))))
                  | _ \<Rightarrow> (Validation, w))))"

text \<open>The commands that write to a collection, and a run of them.\<close>

datatype command =
    Register int string
  | Profile int string
  | Setelo int string int
  | Resetelo int string
  | Createtourney string
  | Addteam string string "(int \<times> string) list"
  | Starttourney "string list \<Rightarrow> string list" string
  | Matchresult string string string string

fun step :: "command \<Rightarrow> world \<Rightarrow> reply \<times> world" where
  "step (Register pid d) w = register pid d w"
| "step (Profile pid d) w = profile pid d w"
| "step (Setelo pid d v) w = setelo pid d v w"
| "step (Resetelo pid d) w = resetelo pid d w"
| "step (Createtourney nm) w = createtourney nm w"
| "step (Addteam nm team members) w = addteam nm team members w"
| "step (Starttourney shuffle nm) w = starttourney shuffle nm w"
| "step (Matchresult nm i wt lt) w = matchresult nm i wt lt w"

fun run :: "command list \<Rightarrow> world \<Rightarrow> world" where
  "run [] w = w"
| "run (c # cs) w = run cs (snd (step c w))"

text \<open>
  A C library whose \<open>pow\<close> rounds correctly, a database that refuses every path of
  several components and a call of \<open>adjust_elo_for_match\<close> on foreign values that
  raises TypeError at once: the environment of the examples. The examples use plain
  team names, and they call the library for one power, which overflows in every
  library.
\<close>

definition correctly_rounded_pow10 :: "real \<Rightarrow> real option" where
  "correctly_rounded_pow10 y = (if huge \<le> 10 powr y then None else Some (fl (10 powr y)))"

definition empty_world :: "(nat \<Rightarrow> 64 word) \<Rightarrow> world" where
  "empty_world r =
     \<lparr>players_col = Map.empty, tournaments_col = Map.empty, randbits = r,
      libm_pow10 = correctly_rounded_pow10,
      store_set_path = (\<lambda>team_name player_ids ts. Inl WriteError),
      foreign_adjust = (\<lambda>winner_pids loser_pids players. (Some TypeError, players))\<rparr>"
subsection \<open>What a pairing pass does to the tournament document\<close>

text \<open>
  The functions of this subsection are not in the source. They describe what the loops
  above do to one document, and the lemmas of the next section prove that the loops do
  it.
\<close>

text \<open>The id \<open>make_match_id\<close> returns when \<open>r\<close> holds the random values to come.\<close>

definition next_id :: "(nat \<Rightarrow> 64 word) \<Rightarrow> string" where
  "next_id r = take 12 (str_nat (unat (r 0)))"

definition add_rounds :: "bracket \<Rightarrow> string list list \<Rightarrow> tournament \<Rightarrow> tournament" where
  "add_rounds br rs t =
     (if br = Upper then t\<lparr>upper_rounds := upper_rounds t @ rs\<rparr>
      else t\<lparr>lower_rounds := lower_rounds t @ rs\<rparr>)"

text \<open>The matches one pass over a pool creates, from the pool and the random values.\<close>

fun pool_matches :: "bracket \<Rightarrow> string list \<Rightarrow> (nat \<Rightarrow> 64 word) \<Rightarrow> match list" where
  "pool_matches br (a # b # pool) r =
     new_match (next_id r) a b br # pool_matches br pool (\<lambda>i. r (Suc i))"
| "pool_matches br [t] r = [bye_match (next_id r) t br]"
| "pool_matches br [] r = []"

text \<open>The document after both passes of \<open>try_pair_pending\<close>, before the champion test.\<close>

definition paired_doc :: "tournament \<Rightarrow> (nat \<Rightarrow> 64 word) \<Rightarrow> tournament" where
  "paired_doc t r =
     (let ups = pool_matches Upper (pending_upper t) r;
          los = pool_matches Lower (pending_lower t) (\<lambda>i. r (i + length ups))
      in (add_rounds Lower (map (\<lambda>m. [match_id m]) los)
            (add_rounds Upper (map (\<lambda>m. [match_id m]) ups) t))
         \<lparr>pending_upper := [], pending_lower := [], matches := matches t @ ups @ los\<rparr>)"

text \<open>
  The document after the three writes of a \<open>matchresult\<close> that is carried out: the
  winner of the match, the loser appended to the lower pool and the winner to the upper
  pool.
\<close>

definition reported :: "string \<Rightarrow> string \<Rightarrow> string \<Rightarrow> tournament \<Rightarrow> tournament" where
  "reported i winner_team loser_team t =
     t\<lparr>matches := set_winner i winner_team (matches t),
       pending_lower := pending_lower t @ [loser_team],
       pending_upper := pending_upper t @ [winner_team]\<rparr>"

text \<open>The champion test at the end of \<open>try_pair_pending\<close>.\<close>

definition crowned :: "tournament \<Rightarrow> tournament" where
  "crowned t = (case alive t of [champ] \<Rightarrow> t\<lparr>status := Finished, champion := Some champ\<rparr> | _ \<Rightarrow> t)"

subsection \<open>Notions of the specification\<close>

text \<open>The teams that appear in a match: \<open>teamA\<close>, and \<open>teamB\<close> when there is one.\<close>

definition sides :: "match \<Rightarrow> string list" where
  "sides m = teamA m # (case teamB m of None \<Rightarrow> [] | Some b \<Rightarrow> [b])"

text \<open>
  The matches \<open>ms\<close> are a pairing of the pool: there are \<open>(N + 1) div 2\<close> of them for a
  pool of \<open>N\<close> teams; one of them is a bye when \<open>N\<close> is odd and none when \<open>N\<close> is even;
  the sides of the matches, taken together, are the teams of the pool, each once; every
  team of the pool is a side of exactly one match; no match pairs a team with itself; a
  bye has no \<open>teamB\<close> and its \<open>teamA\<close> as the winner; a match that is not a bye has a
  \<open>teamB\<close> and no winner.
\<close>

definition is_pairing :: "string list \<Rightarrow> match list \<Rightarrow> bool" where
  "is_pairing pool ms \<longleftrightarrow>
     length ms = (length pool + 1) div 2
     \<and> length (filter bye ms) = (if odd (length pool) then 1 else 0)
     \<and> mset (concat (map sides ms)) = mset pool
     \<and> (\<forall>x \<in> set pool. \<exists>!k. k < length ms \<and> x \<in> set (sides (ms ! k)))
     \<and> (\<forall>m \<in> set ms. teamB m \<noteq> Some (teamA m))
     \<and> (\<forall>m \<in> set ms. bye m \<longrightarrow> teamB m = None \<and> winner m = Some (teamA m))
     \<and> (\<forall>m \<in> set ms. \<not> bye m \<longrightarrow> teamB m \<noteq> None \<and> winner m = None)"

text \<open>
  A resolved match as the data model has it: two different sides with names that are
  not empty, the winner one of the two.
\<close>

definition proper_match :: "match \<Rightarrow> bool" where
  "proper_match m \<longleftrightarrow>
     (case teamB m of
        None \<Rightarrow> False
      | Some b \<Rightarrow> teamA m \<noteq> b \<and> teamA m \<noteq> [] \<and> b \<noteq> []
                  \<and> (winner m = Some (teamA m) \<or> winner m = Some b))"

text \<open>
  The words of the specification: a team is the losing side of a match when the match
  has a winner and the team is a side of the match that is not the winner.
\<close>

definition losing_side :: "string \<Rightarrow> match \<Rightarrow> bool" where
  "losing_side tm m \<longleftrightarrow> winner m \<noteq> None \<and> tm \<in> set (sides m) \<and> winner m \<noteq> Some tm"

text \<open>
  The history of \<open>t'\<close> extends the history of \<open>t\<close> and every match of \<open>t\<close> that has a
  winner has the same winner in \<open>t'\<close>.
\<close>

definition keeps_winners :: "tournament \<Rightarrow> tournament \<Rightarrow> bool" where
  "keeps_winners t t' \<longleftrightarrow>
     length (matches t) \<le> length (matches t')
     \<and> (\<forall>j < length (matches t). truthy (winner (matches t ! j)) \<longrightarrow>
            winner (matches t' ! j) = winner (matches t ! j))"

text \<open>
  The document \<open>adjust_elo_for_match\<close> captures for a player before any update: the
  stored one, or the default one (rating 1200, no wins, no losses) that
  \<open>ensure_player_doc\<close> creates for a player who has none.
\<close>

definition doc_before :: "world \<Rightarrow> int \<Rightarrow> player" where
  "doc_before w p = fst (ensure_player_doc p None w)"

text \<open>The player documents as \<open>adjust_elo_for_match\<close> captures them.\<close>

definition captured :: "world \<Rightarrow> int \<Rightarrow> player option" where
  "captured w p = Some (doc_before w p)"


text \<open>
  The same world with the tournament \<open>nm\<close> in the status running: what a finished
  tournament is compared with.
\<close>

definition as_running :: "string \<Rightarrow> world \<Rightarrow> world" where
  "as_running nm w = update_one nm (\<lambda>t. t\<lparr>status := Running\<rparr>) w"

subsection \<open>Example worlds\<close>

text \<open>
  Teams A, B and C of one player each; the random values are 1, 2, 3, ... so the match
  ids are "1", "2", "3", ...; the shuffle reverses the list, which pairs A with B and
  gives C the bye.
\<close>

definition three_teams :: world where
  "three_teams =
     run [Createtourney ''T'', Addteam ''T'' ''A'' [(1, ''a'')], Addteam ''T'' ''B'' [(2, ''b'')],
          Addteam ''T'' ''C'' [(3, ''c'')]]
       (empty_world (\<lambda>i. word_of_nat (Suc i)))"

definition three_started :: world where
  "three_started = snd (starttourney rev ''T'' three_teams)"

text \<open>
  A report that raises. Team B of the tournament F has no player when the tournament
  is started, twice, which creates the matches "1" and "2", both A against B. The
  report on match "1" raises ZeroDivisionError on the empty roster of B, after the
  winner and the two pools have been written.
\<close>

definition empty_roster_started :: world where
  "empty_roster_started =
     run [Createtourney ''F'', Addteam ''F'' ''A'' [(1, ''a'')], Addteam ''F'' ''B'' [],
          Starttourney rev ''F'', Starttourney rev ''F'']
       (empty_world (\<lambda>i. word_of_nat (Suc i)))"

definition raised_world :: world where
  "raised_world = snd (matchresult ''F'' ''1'' ''A'' ''B'' empty_roster_started)"



text \<open>
  A tournament with a lower match of two teams. The tournament G has the teams A, B
  (without a player at first) and C. It is started twice (matches "1" and "3" are A
  against B, "2" and "4" are byes of C), the report on match "1" raises on the empty
  roster of B, B gets a player, and the report that B beat A in match "3" finds two
  teams in each pool: it creates match "5" (A against B, upper) and match "6" (B
  against A, lower).
\<close>

definition lower_match_world :: world where
  "lower_match_world =
     run [Createtourney ''G'', Addteam ''G'' ''A'' [(1, ''a'')], Addteam ''G'' ''B'' [],
          Addteam ''G'' ''C'' [(3, ''c'')], Starttourney rev ''G'', Starttourney rev ''G'',
          Matchresult ''G'' ''1'' ''A'' ''B'', Addteam ''G'' ''B'' [(2, ''b'')],
          Matchresult ''G'' ''3'' ''B'' ''A'', Resetelo 1 ''a'']
       (empty_world (\<lambda>i. word_of_nat (Suc i)))"


section \<open>Properties\<close>

subsection \<open>Evaluation\<close>

lemma str_nat_small: "n < 10 \<Longrightarrow> str_nat n = [digit_char n]"
  by (simp add: str_nat.simps)

subsection \<open>Floats\<close>

text \<open>
  A number \<open>m * 2 ^ k\<close> with a significand \<open>m\<close> of at most 53 bits is a double, so
  rounding leaves it as it is. In particular the integers up to \<open>2 ^ 53\<close> are doubles.
\<close>

lemma py_round_of_int [simp]: "py_round (of_int n) = n"
  by (simp add: py_round_def)


lemma huge_large: "2 ^ 54 \<le> huge"
  by (simp add: huge_def)

lemma fl_zero [simp]: "fl 0 = 0"
  by (simp add: fl_def)

lemma fl_exact:
  assumes "\<bar>m\<bar> < 2 ^ 53" and "- 1074 \<le> k"
  shows "fl (real_of_int m * 2 powr real_of_int k) = real_of_int m * 2 powr real_of_int k"
proof (cases "m = 0")
  case True
  then show ?thesis by simp
next
  case False
  define x where "x = real_of_int m * 2 powr real_of_int k"
  have x0: "x \<noteq> 0" using False by (simp add: x_def)
  have ax: "\<bar>x\<bar> = real_of_int \<bar>m\<bar> * 2 powr real_of_int k"
    by (simp add: x_def abs_mult)
  have "real_of_int \<bar>m\<bar> < 2 ^ 53"
    using assms(1) by (metis of_int_less_numeral_power_cancel_iff)
  then have "\<bar>x\<bar> < 2 ^ 53 * 2 powr real_of_int k"
    unfolding ax by (simp)
  also have "(2::real) ^ 53 * 2 powr real_of_int k = 2 powr real_of_int (53 + k)"
    by (simp add: powr_add)
  finally have "log 2 \<bar>x\<bar> < real_of_int (53 + k)"
    using x0 by (subst log_less_iff) simp_all
  then have fl: "\<lfloor>log 2 \<bar>x\<bar>\<rfloor> < 53 + k"
    by (simp add: floor_less_iff)
  define e where "e = max \<lfloor>log 2 \<bar>x\<bar>\<rfloor> (- 1022)"
  have ek: "e - 52 \<le> k" using fl assms(2) by (simp add: e_def)
  define d where "d = nat (k - (e - 52))"
  have kd: "real_of_int k = real_of_int (e - 52) + real d"
    using ek by (simp add: d_def)
  have p: "2 powr real_of_int k = 2 powr real_of_int (e - 52) * 2 ^ d"
    unfolding kd by (simp add: powr_add powr_realpow)
  have q: "x / 2 powr real_of_int (e - 52) = real_of_int (m * 2 ^ d)"
    by (simp add: x_def p)
  have "fl x = real_of_int (py_round (x / 2 powr real_of_int (e - 52))) * 2 powr real_of_int (e - 52)"
    using x0 by (simp add: fl_def Let_def e_def)
  also have "\<dots> = x"
    unfolding q py_round_of_int by (simp add: x_def p)
  finally show ?thesis by (simp add: x_def)
qed

lemma fl_int:
  assumes "\<bar>n\<bar> \<le> 2 ^ 53"
  shows "fl (real_of_int n) = real_of_int n"
proof (cases "\<bar>n\<bar> < 2 ^ 53")
  case True
  from fl_exact [OF True, of 0] show ?thesis by simp
next
  case False
  with assms have "\<bar>n\<bar> = 2 ^ 53" by simp
  then have n: "n = 2 ^ 52 * 2 \<or> n = - (2 ^ 52) * 2" by auto
  have "\<bar>2 ^ 52 :: int\<bar> < 2 ^ 53" "\<bar>- (2 ^ 52) :: int\<bar> < 2 ^ 53" by simp_all
  from fl_exact [OF this(1), of 1] fl_exact [OF this(2), of 1] n show ?thesis by auto
qed

lemma fl_half: "fl (1 / 2) = 1 / 2"
  using fl_exact [of 1 "- 1"] by (simp add: powr_minus)

lemma fl_neg_half: "fl (- (1 / 2)) = - (1 / 2)"
  using fl_exact [of "- 1" "- 1"] by (simp add: powr_minus)

lemma fl_ext_int:
  assumes "\<bar>n\<bar> \<le> 2 ^ 53"
  shows "fl_ext (real_of_int n) = Fin (real_of_int n)"
proof -
  have "\<bar>real_of_int n\<bar> \<le> 2 ^ 53"
    using assms by (metis of_int_abs of_int_le_numeral_power_cancel_iff)
  with huge_large have "\<not> huge \<le> real_of_int n" "\<not> real_of_int n \<le> - huge" by auto
  then show ?thesis by (simp add: fl_ext_def fl_int [OF assms])
qed

lemma not_huge_small: "\<bar>x\<bar> \<le> 2 ^ 53 \<Longrightarrow> \<not> huge \<le> x \<and> \<not> x \<le> - huge \<and> \<not> huge \<le> \<bar>x\<bar>"
  using huge_large by auto

lemma fl_ext_zero [simp]: "fl_ext 0 = Fin 0"
  using fl_ext_int [of 0] by simp

lemma fl_ext_half: "fl_ext (1 / 2) = Fin (1 / 2)"
  using not_huge_small [of "1 / 2"] by (simp add: fl_ext_def fl_half)

lemma fl_ext_neg_half: "fl_ext (- (1 / 2)) = Fin (- (1 / 2))"
  using not_huge_small [of "- (1 / 2)"] by (simp add: fl_ext_def fl_neg_half)

lemma int_to_float_small: "\<bar>n\<bar> \<le> 2 ^ 53 \<Longrightarrow> int_to_float n = Inr (Fin (real_of_int n))"
proof -
  assume a: "\<bar>n\<bar> \<le> 2 ^ 53"
  then have "\<bar>real_of_int n\<bar> \<le> 2 ^ 53"
    by (metis of_int_abs of_int_le_numeral_power_cancel_iff)
  with not_huge_small [of "real_of_int n"] show ?thesis
    by (simp add: int_to_float_def fl_int [OF a])
qed

lemma x_sub_same [simp]: "x_sub (Fin a) (Fin a) = Fin 0"
  by (simp add: x_sub_def)

lemma expected_same: "expected lib (Fin a) (Fin a) = Inr (Fin (1 / 2))"
proof -
  have two: "fl_ext 2 = Fin 2" using fl_ext_int [of 2] by simp
  show ?thesis
    by (simp add: expected_def float_pow10_def two fl_ext_half)
qed

lemma new_rating_win:
  assumes "\<bar>old\<bar> \<le> 2 ^ 53 - 16"
  shows "new_rating old 32 (x_sub (Fin 1) (Fin (1 / 2))) = Inr (old + 16)"
proof -
  have s: "x_sub (Fin 1) (Fin (1 / 2)) = Fin (1 / 2)"
    by (simp add: x_sub_def fl_ext_half)
  have k: "int_to_float 32 = Inr (Fin 32)" using int_to_float_small [of 32] by simp
  have o: "int_to_float old = Inr (Fin (real_of_int old))"
    using assms by (intro int_to_float_small) simp
  have m: "fl_ext 16 = Fin 16" using fl_ext_int [of 16] by simp
  have "\<bar>old + 16\<bar> \<le> 2 ^ 53" using assms by simp
  from fl_ext_int [OF this] have a: "fl_ext (real_of_int old + 16) = Fin (real_of_int old + 16)"
    by simp
  have r: "py_round (real_of_int old + 16) = old + 16"
    using py_round_of_int [of "old + 16"] by simp
  show ?thesis
    by (simp add: new_rating_def s k o m a r float_round_def)
qed

lemma new_rating_lose:
  assumes "\<bar>old\<bar> \<le> 2 ^ 53 - 16"
  shows "new_rating old 32 (x_sub (Fin 0) (x_sub (Fin 1) (Fin (1 / 2)))) = Inr (old - 16)"
proof -
  have s: "x_sub (Fin 0) (x_sub (Fin 1) (Fin (1 / 2))) = Fin (- (1 / 2))"
    by (simp add: x_sub_def fl_ext_half fl_ext_neg_half)
  have k: "int_to_float 32 = Inr (Fin 32)" using int_to_float_small [of 32] by simp
  have o: "int_to_float old = Inr (Fin (real_of_int old))"
    using assms by (intro int_to_float_small) simp
  have m: "fl_ext (- 16) = Fin (- 16)" using fl_ext_int [of "- 16"] by simp
  have "\<bar>old - 16\<bar> \<le> 2 ^ 53" using assms by simp
  from fl_ext_int [OF this] have a: "fl_ext (real_of_int old - 16) = Fin (real_of_int old - 16)"
    by simp
  have r: "py_round (real_of_int old - 16) = old - 16"
    using py_round_of_int [of "old - 16"] by simp
  show ?thesis
    by (simp add: new_rating_def s k o m a r float_round_def)
qed

lemma rating_loop_win:
  assumes "\<forall>p \<in> set ids. \<bar>elo_in players p\<bar> \<le> 2 ^ 53 - 16"
  shows "rating_loop players 32 (x_sub (Fin 1) (Fin (1 / 2))) ids
           = Inr (map (\<lambda>p. (p, elo_in players p + 16)) ids)"
  using assms by (induction ids) (simp_all add: new_rating_win)

lemma rating_loop_lose:
  assumes "\<forall>p \<in> set ids. \<bar>elo_in players p\<bar> \<le> 2 ^ 53 - 16"
  shows "rating_loop players 32 (x_sub (Fin 0) (x_sub (Fin 1) (Fin (1 / 2)))) ids
           = Inr (map (\<lambda>p. (p, elo_in players p - 16)) ids)"
  using assms by (induction ids) (simp_all add: new_rating_lose)

lemma sum_list_bound:
  fixes f :: "'a \<Rightarrow> int"
  assumes "\<forall>p \<in> set ids. \<bar>f p\<bar> \<le> B"
  shows "\<bar>sum_list (map f ids)\<bar> \<le> B * int (length ids)"
  using assms
proof (induction ids)
  case Nil
  show ?case by simp
next
  case (Cons a ids)
  then have "\<bar>f a\<bar> \<le> B" "\<bar>sum_list (map f ids)\<bar> \<le> B * int (length ids)" by simp_all
  then show ?case by (simp add: algebra_simps)
qed

lemma int_true_div_average:
  assumes "ids \<noteq> []" and "\<forall>p \<in> set ids. \<bar>f p\<bar> \<le> 2 ^ 53"
  shows "int_true_div (sum_list (map f ids)) (int (length ids))
           = Inr (Fin (fl (real_of_int (sum_list (map f ids)) / real (length ids))))"
proof -
  have l: "0 < length ids" using assms(1) by simp
  from sum_list_bound [OF assms(2)]
  have "real_of_int \<bar>sum_list (map f ids)\<bar> \<le> real_of_int (2 ^ 53 * int (length ids))"
    by (simp only: of_int_le_iff)
  then have "\<bar>real_of_int (sum_list (map f ids))\<bar> \<le> 2 ^ 53 * real (length ids)"
    by simp
  then have "\<bar>real_of_int (sum_list (map f ids)) / real (length ids)\<bar> \<le> 2 ^ 53"
    using l by (simp add: field_simps)
  with not_huge_small [of "real_of_int (sum_list (map f ids)) / real (length ids)"] l
  show ?thesis by (simp add: int_true_div_def)
qed

lemma rating_updates_equal:
  assumes "ws \<noteq> []" and "ls \<noteq> []"
    and eq: "sum_list (map (elo_in players) ws) * int (length ls)
               = sum_list (map (elo_in players) ls) * int (length ws)"
    and b: "\<forall>p \<in> set (ws @ ls). \<bar>elo_in players p\<bar> \<le> 2 ^ 53 - 16"
  shows "rating_updates lib players ws ls 32
           = Inr (map (\<lambda>p. (p, elo_in players p + 16)) ws @ map (\<lambda>p. (p, elo_in players p - 16)) ls)"
proof -
  have "\<bar>elo_in players p\<bar> \<le> 2 ^ 53" if "p \<in> set (ws @ ls)" for p
  proof -
    from b that have "\<bar>elo_in players p\<bar> \<le> 2 ^ 53 - 16" by blast
    then show ?thesis by simp
  qed
  then have bw: "\<forall>p \<in> set ws. \<bar>elo_in players p\<bar> \<le> 2 ^ 53"
    and bl: "\<forall>p \<in> set ls. \<bar>elo_in players p\<bar> \<le> 2 ^ 53"
    by simp_all
  have bw16: "\<forall>p \<in> set ws. \<bar>elo_in players p\<bar> \<le> 2 ^ 53 - 16"
    and bl16: "\<forall>p \<in> set ls. \<bar>elo_in players p\<bar> \<le> 2 ^ 53 - 16"
    using b by auto
  have l: "0 < length ws" "0 < length ls" using assms(1,2) by simp_all
  from eq have "real_of_int (sum_list (map (elo_in players) ws) * int (length ls))
      = real_of_int (sum_list (map (elo_in players) ls) * int (length ws))" by simp
  then have "real_of_int (sum_list (map (elo_in players) ws)) * real (length ls)
      = real_of_int (sum_list (map (elo_in players) ls)) * real (length ws)" by simp
  then have av: "real_of_int (sum_list (map (elo_in players) ws)) / real (length ws)
      = real_of_int (sum_list (map (elo_in players) ls)) / real (length ls)"
    using l by (simp add: field_simps)
  show ?thesis
    unfolding rating_updates_def int_true_div_average [OF assms(1) bw] int_true_div_average [OF assms(2) bl] av
    by (simp add: expected_same rating_loop_win [OF bw16] rating_loop_lose [OF bl16])
qed

lemma rating_updates_no_winner: "rating_updates lib players [] ls k = Inl ZeroDivisionError"
  by (simp add: rating_updates_def int_true_div_def)

lemma rating_updates_no_loser:
  assumes "ws \<noteq> []" and "\<forall>p \<in> set ws. \<bar>elo_in players p\<bar> \<le> 2 ^ 53"
  shows "rating_updates lib players ws [] k = Inl ZeroDivisionError"
  unfolding rating_updates_def int_true_div_average [OF assms]
  by (simp add: int_true_div_def)


text \<open>
  For the evaluation of a run of commands \<open>rating_updates\<close> stays folded: its values on
  the ratings of the runs are the lemmas above.
\<close>

lemmas eval_defs = createtourney_def addteam_def starttourney_def matchresult_def
  register_def profile_def setelo_def resetelo_def set_elo_def
  get_tournament_def create_tournament_doc_def update_one_def append_match_to_tourney_def
  push_round_def find_match_def try_pair_pending_def make_match_id_def new_match_def bye_match_def
  create_round_matches_def empty_tournament_def empty_world_def ensure_player_doc_def
  adjust_elo_for_match_def adjust_elo_for_rosters_def elo_in_def inc_wins_set_elo_def
  inc_losses_set_elo_def K_FACTOR_def truthy_def alive_def eliminated_def
  loser_of_def digit_char_def str_int_def Let_def str_nat_small int64_def plain_field_name_def
  rating_updates_equal rating_updates_no_winner rating_updates_no_loser

subsection \<open>Frame lemmas\<close>

lemma get_update_one [simp]:
  "get_tournament nm (update_one nm f w) = map_option f (get_tournament nm w)"
  by (simp add: get_tournament_def update_one_def split: option.splits)

lemma get_update_one_other [simp]:
  "nm' \<noteq> nm \<Longrightarrow> get_tournament nm' (update_one nm f w) = get_tournament nm' w"
  by (simp add: get_tournament_def update_one_def split: option.splits)

lemma players_update_one [simp]: "players_col (update_one nm f w) = players_col w"
  by (simp add: update_one_def split: option.splits)

lemma randbits_update_one [simp]: "randbits (update_one nm f w) = randbits w"
  by (simp add: update_one_def split: option.splits)

lemma fst_make_match_id [simp]: "fst (make_match_id w) = next_id (randbits w)"
  by (simp add: make_match_id_def next_id_def)

lemma get_make_match_id [simp]: "get_tournament nm (snd (make_match_id w)) = get_tournament nm w"
  by (simp add: get_tournament_def make_match_id_def)

lemma players_make_match_id [simp]: "players_col (snd (make_match_id w)) = players_col w"
  by (simp add: make_match_id_def)

lemma randbits_make_match_id [simp]:
  "randbits (snd (make_match_id w)) = (\<lambda>i. randbits w (Suc i))"
  by (simp add: make_match_id_def)

lemma get_append_match [simp]:
  "get_tournament nm (append_match_to_tourney nm m w) =
     map_option (\<lambda>t. t\<lparr>matches := matches t @ [m]\<rparr>) (get_tournament nm w)"
  by (simp add: append_match_to_tourney_def)

lemma get_append_match_other [simp]:
  "nm' \<noteq> nm \<Longrightarrow> get_tournament nm' (append_match_to_tourney nm m w) = get_tournament nm' w"
  by (simp add: append_match_to_tourney_def)

lemma players_append_match [simp]: "players_col (append_match_to_tourney nm m w) = players_col w"
  by (simp add: append_match_to_tourney_def)

lemma randbits_append_match [simp]: "randbits (append_match_to_tourney nm m w) = randbits w"
  by (simp add: append_match_to_tourney_def)

lemma get_push_round [simp]:
  "get_tournament nm (push_round nm br r w) = map_option (add_rounds br [r]) (get_tournament nm w)"
  by (cases "get_tournament nm w") (simp_all add: push_round_def add_rounds_def)

lemma get_push_round_other [simp]:
  "nm' \<noteq> nm \<Longrightarrow> get_tournament nm' (push_round nm br r w) = get_tournament nm' w"
  by (simp add: push_round_def)

lemma players_push_round [simp]: "players_col (push_round nm br r w) = players_col w"
  by (simp add: push_round_def)

lemma randbits_push_round [simp]: "randbits (push_round nm br r w) = randbits w"
  by (simp add: push_round_def)

lemma pair_pending_pool [simp]: "fst (pair_pending nm br pool u w) = []"
proof (induction nm br pool u w rule: pair_pending.induct)
  case (1 nm br a b pool updated w)
  from 1 [OF refl prod.collapse refl refl] show ?case
    by (simp add: Let_def case_prod_beta)
qed (simp_all add: Let_def case_prod_beta)

lemma pair_pending_updated [simp]:
  "fst (snd (pair_pending nm br pool u w)) = (u \<or> pool \<noteq> [])"
proof (induction nm br pool u w rule: pair_pending.induct)
  case (1 nm br a b pool updated w)
  from 1 [OF refl prod.collapse refl refl] show ?case
    by (simp add: Let_def case_prod_beta)
qed (simp_all add: Let_def case_prod_beta)

lemma pair_pending_players [simp]:
  "players_col (snd (snd (pair_pending nm br pool u w))) = players_col w"
proof (induction nm br pool u w rule: pair_pending.induct)
  case (1 nm br a b pool updated w)
  from 1 [OF refl prod.collapse refl refl] show ?case
    by (simp add: Let_def case_prod_beta)
qed (simp_all add: Let_def case_prod_beta)

lemma pair_pending_other [simp]:
  "nm' \<noteq> nm \<Longrightarrow> get_tournament nm' (snd (snd (pair_pending nm br pool u w))) = get_tournament nm' w"
proof (induction nm br pool u w rule: pair_pending.induct)
  case (1 nm br a b pool updated w)
  from 1(1) [OF refl prod.collapse refl refl] 1(2) show ?case
    by (simp add: Let_def case_prod_beta)
qed (simp_all add: Let_def case_prod_beta)

lemma add_rounds_matches [simp]: "matches (add_rounds br rs t) = matches t"
  and add_rounds_teams [simp]: "teams (add_rounds br rs t) = teams t"
  and add_rounds_status [simp]: "status (add_rounds br rs t) = status t"
  and add_rounds_pu [simp]: "pending_upper (add_rounds br rs t) = pending_upper t"
  and add_rounds_pl [simp]: "pending_lower (add_rounds br rs t) = pending_lower t"
  and add_rounds_champion [simp]: "champion (add_rounds br rs t) = champion t"
  by (simp_all add: add_rounds_def)

lemma add_rounds_add_rounds: "add_rounds br rs (add_rounds br rs' t) = add_rounds br (rs' @ rs) t"
  by (simp add: add_rounds_def)

lemma add_rounds_matches_update:
  "add_rounds br rs (t\<lparr>matches := ms\<rparr>) = (add_rounds br rs t)\<lparr>matches := ms\<rparr>"
  by (simp add: add_rounds_def)

lemma pair_pending_get:
  "get_tournament nm (snd (snd (pair_pending nm br pool u w))) =
     map_option (\<lambda>t. (add_rounds br (map (\<lambda>m. [match_id m]) (pool_matches br pool (randbits w))) t)
                       \<lparr>matches := matches t @ pool_matches br pool (randbits w)\<rparr>)
       (get_tournament nm w)"
proof (induction nm br pool u w rule: pair_pending.induct)
  case (1 nm br a b pool updated w)
  from 1 [OF refl prod.collapse refl refl] show ?case
    by (cases "get_tournament nm w")
       (simp_all add: Let_def case_prod_beta add_rounds_add_rounds add_rounds_matches_update new_match_def)
next
  case (2 nm br bye_team updated w)
  then show ?case 
    by (cases "get_tournament nm w")
       (simp_all add: Let_def case_prod_beta add_rounds_add_rounds add_rounds_matches_update bye_match_def)
next
  case (3 nm br updated w)
  then show ?case by (cases "get_tournament nm w") (auto simp: add_rounds_def)
qed

lemma randbits_pair_pending:
  "randbits (snd (snd (pair_pending nm br pool u w))) =
     (\<lambda>i. randbits w (i + length (pool_matches br pool (randbits w))))"
proof (induction nm br pool u w rule: pair_pending.induct)
  case (1 nm br a b pool updated w)
  from 1 [OF refl prod.collapse refl refl] show ?case
    by (simp add: Let_def case_prod_beta)
qed (simp_all add: Let_def case_prod_beta)

lemma pool_matches_Nil_iff [simp]: "pool_matches br pool r = [] \<longleftrightarrow> pool = []"
  by (induction br pool r rule: pool_matches.induct) simp_all

lemma try_pair_pending_get:
  "get_tournament nm (try_pair_pending nm w) =
     map_option (\<lambda>t. crowned (paired_doc t (randbits w))) (get_tournament nm w)"
proof (cases "get_tournament nm w")
  case None
  then show ?thesis by (simp add: try_pair_pending_def)
next
  case (Some t)
  define w1 where "w1 = snd (snd (pair_pending nm Upper (pending_upper t) False w))"
  define w2 where "w2 = snd (snd (pair_pending nm Lower (pending_lower t) (pending_upper t \<noteq> []) w1))"
  define w3 where "w3 = (if pending_upper t \<noteq> [] \<or> pending_lower t \<noteq> []
             then update_one nm (\<lambda>t. t\<lparr>pending_upper := [], pending_lower := []\<rparr>) w2 else w2)"
  have eq: "try_pair_pending nm w =
      (case get_tournament nm w3 of None \<Rightarrow> w3
       | Some t \<Rightarrow> (case alive t of
                     [champ] \<Rightarrow> update_one nm (\<lambda>t. t\<lparr>status := Finished, champion := Some champ\<rparr>) w3
                   | _ \<Rightarrow> w3))"
    by (simp add: try_pair_pending_def Some Let_def case_prod_beta w1_def w2_def w3_def
             cong: option.case_cong list.case_cong)
  have g3: "get_tournament nm w3 = Some (paired_doc t (randbits w))"
  proof (cases "pending_upper t = [] \<and> pending_lower t = []")
    case True
    then have "paired_doc t (randbits w) = t"
      by (simp add: paired_doc_def add_rounds_def Let_def)
    with True Some show ?thesis by (simp add: w1_def w2_def w3_def)
  next
    case False
    then show ?thesis
      by (auto simp: Some pair_pending_get randbits_pair_pending paired_doc_def add_rounds_def Let_def
            w1_def w2_def w3_def)
  qed
  show ?thesis
    by (simp add: eq g3 Some crowned_def split: list.splits)
qed

lemma try_pair_pending_other [simp]:
  "nm' \<noteq> nm \<Longrightarrow> get_tournament nm' (try_pair_pending nm w) = get_tournament nm' w"
  by (simp add: try_pair_pending_def Let_def case_prod_beta split: option.splits list.splits)

lemma try_pair_pending_players [simp]:
  "players_col (try_pair_pending nm w) = players_col w"
  by (simp add: try_pair_pending_def Let_def case_prod_beta split: option.splits list.splits)

lemma get_ensure_player_doc [simp]:
  "get_tournament nm (snd (ensure_player_doc pid d w)) = get_tournament nm w"
  by (simp add: ensure_player_doc_def get_tournament_def Let_def split: option.splits)

lemma randbits_ensure_player_doc [simp]:
  "randbits (snd (ensure_player_doc pid d w)) = randbits w"
  by (simp add: ensure_player_doc_def Let_def split: option.splits)

lemma get_fetch_docs [simp]:
  "get_tournament nm (snd (fetch_docs pids (ps, w))) = get_tournament nm w"
  by (induction pids arbitrary: ps w) (simp_all add: case_prod_beta)

lemma get_inc_wins [simp]: "get_tournament nm (inc_wins_set_elo pid e w) = get_tournament nm w"
  by (simp add: inc_wins_set_elo_def get_tournament_def split: option.splits)

lemma get_inc_losses [simp]: "get_tournament nm (inc_losses_set_elo pid e w) = get_tournament nm w"
  by (simp add: inc_losses_set_elo_def get_tournament_def split: option.splits)

lemma get_persist [simp]: "get_tournament nm (snd (persist ws us w)) = get_tournament nm w"
  by (induction ws us w rule: persist.induct) simp_all

lemma get_adjust_elo [simp]:
  "get_tournament nm (snd (adjust_elo_for_match ws ls k w)) = get_tournament nm w"
  by (simp add: adjust_elo_for_match_def Let_def case_prod_beta split: sum.splits)

lemma get_adjust_elo_for_rosters [simp]:
  "get_tournament nm (snd (adjust_elo_for_rosters wp lp w)) = get_tournament nm w"
  by (simp add: adjust_elo_for_rosters_def case_prod_beta get_tournament_def [of nm "w\<lparr>players_col := _\<rparr>"]
        get_tournament_def [of nm w] split: roster.splits)

lemma paired_doc_pools [simp]:
  "pending_upper (paired_doc t r) = []" "pending_lower (paired_doc t r) = []"
  by (simp_all add: paired_doc_def Let_def)

lemma crowned_pools [simp]:
  "pending_upper (crowned t) = pending_upper t" "pending_lower (crowned t) = pending_lower t"
  by (simp_all add: crowned_def split: list.splits)

lemma get_fold_append_match:
  "get_tournament nm (fold (append_match_to_tourney nm) ms w) =
     map_option (\<lambda>t. t\<lparr>matches := matches t @ ms\<rparr>) (get_tournament nm w)"
proof (induction ms arbitrary: w)
  case Nil
  show ?case by (cases "get_tournament nm w") simp_all
next
  case (Cons m ms)
  show ?case by (cases "get_tournament nm w") (simp_all add: Cons)
qed

lemma get_pair_round [simp]: "get_tournament nm (snd (pair_round st w)) = get_tournament nm w"
proof (induction st w rule: pair_round.induct)
  case (1 a b stack w)
  from 1 [OF prod.collapse] show ?case by (simp add: Let_def case_prod_beta)
qed (simp_all add: Let_def case_prod_beta)

lemma starttourney_pools:
  assumes "fst (starttourney shuffle nm w) = Started ms"
  shows "\<exists>t'. get_tournament nm (snd (starttourney shuffle nm w)) = Some t'
           \<and> pending_upper t' = [] \<and> pending_lower t' = []"
  using assms
  by (auto simp: starttourney_def Let_def case_prod_beta get_fold_append_match create_round_matches_def
           split: option.splits if_splits)

lemma matchresult_pools:
  assumes "fst (matchresult nm i wt lt w) = Recorded \<or> fst (matchresult nm i wt lt w) = Champion c"
  shows "\<exists>t'. get_tournament nm (snd (matchresult nm i wt lt w)) = Some t'
           \<and> pending_upper t' = [] \<and> pending_lower t' = []"
  using assms
  by (auto simp: matchresult_def Let_def case_prod_beta try_pair_pending_get
           split: option.splits if_splits)

lemma get_fold_ensure [simp]:
  "get_tournament nm (fold (\<lambda>m v. snd (ensure_player_doc (fst m) (Some (snd m)) v)) members w)
     = get_tournament nm w"
  by (induction members arbitrary: w) simp_all

lemma addteam_absent: "get_tournament nm w = None \<Longrightarrow> addteam nm tn members w = (NotFound, w)"
  by (simp add: addteam_def)

lemma addteam_present:
  "get_tournament nm w = Some t \<Longrightarrow> plain_field_name tn \<Longrightarrow>
     fst (addteam nm tn members w) = Added (length members)
     \<and> get_tournament nm (snd (addteam nm tn members w))
         = Some (t\<lparr>teams := AList.update tn (Roster (map fst members)) (teams t)\<rparr>)"
  by (simp add: addteam_def Let_def)

lemma addteam_teams_only:
  "get_tournament nm w = Some t \<Longrightarrow>
     \<exists>ts. get_tournament nm (snd (addteam nm tn members w)) = Some (t\<lparr>teams := ts\<rparr>)"
proof (cases "plain_field_name tn")
  case True
  assume "get_tournament nm w = Some t"
  from addteam_present [OF this True, of members] show ?thesis by blast
next
  case False
  assume t: "get_tournament nm w = Some t"
  show ?thesis
  proof (cases "store_set_path w tn (map fst members) (teams t)")
    case (Inl e)
    with t False have "get_tournament nm (snd (addteam nm tn members w)) = Some t"
      by (simp add: addteam_def Let_def)
    then have "get_tournament nm (snd (addteam nm tn members w)) = Some (t\<lparr>teams := teams t\<rparr>)"
      by simp
    then show ?thesis by blast
  next
    case (Inr ts)
    with t False have "get_tournament nm (snd (addteam nm tn members w)) = Some (t\<lparr>teams := ts\<rparr>)"
      by (simp add: addteam_def Let_def)
    then show ?thesis by blast
  qed
qed

lemma matchresult_resolved:
  "get_tournament nm w = Some t \<Longrightarrow> find_match t i = Some m \<Longrightarrow> truthy (winner m) \<Longrightarrow>
     matchresult nm i wt lt w = (AlreadyResolved, w)"
  by (simp add: matchresult_def)

lemma starttourney_few:
  "get_tournament nm w = Some t \<Longrightarrow> length (teams t) < 2 \<Longrightarrow> starttourney sh nm w = (InvalidState, w)"
  by (simp add: starttourney_def)

lemma starttourney_enough:
  "get_tournament nm w = Some t \<Longrightarrow> 2 \<le> length (teams t) \<Longrightarrow>
     fst (starttourney sh nm w) = Started (fst (create_round_matches sh (map fst (teams t)) w))
   \<and> get_tournament nm (snd (starttourney sh nm w)) =
       Some (t\<lparr>matches := matches t @ fst (create_round_matches sh (map fst (teams t)) w),
               upper_rounds := upper_rounds t @ [map match_id (fst (create_round_matches sh (map fst (teams t)) w))],
               pending_upper := [], pending_lower := [], status := Running\<rparr>)"
  by (simp add: starttourney_def Let_def case_prod_beta get_fold_append_match create_round_matches_def)

lemma pool_matches_length: "length (pool_matches br pool r) = (length pool + 1) div 2"
  by (induction br pool r rule: pool_matches.induct) simp_all

lemma pool_matches_byes:
  "length (filter bye (pool_matches br pool r)) = (if odd (length pool) then 1 else 0)"
  by (induction br pool r rule: pool_matches.induct) (simp_all add: new_match_def bye_match_def)

lemma pool_matches_sides: "concat (map sides (pool_matches br pool r)) = pool"
  by (induction br pool r rule: pool_matches.induct) (simp_all add: new_match_def bye_match_def sides_def)

lemma pool_matches_bracket: "m \<in> set (pool_matches br pool r) \<Longrightarrow> bracket m = br"
  by (induction br pool r rule: pool_matches.induct) (auto simp: new_match_def bye_match_def)

lemma pool_matches_bye:
  "m \<in> set (pool_matches br pool r) \<Longrightarrow> bye m \<Longrightarrow> teamB m = None \<and> winner m = Some (teamA m)"
  by (induction br pool r rule: pool_matches.induct) (auto simp: new_match_def bye_match_def)

lemma pool_matches_not_bye:
  "m \<in> set (pool_matches br pool r) \<Longrightarrow> \<not> bye m \<Longrightarrow> teamB m \<noteq> None \<and> winner m = None"
  by (induction br pool r rule: pool_matches.induct) (auto simp: new_match_def bye_match_def)

lemma pool_matches_no_self:
  "distinct pool \<Longrightarrow> m \<in> set (pool_matches br pool r) \<Longrightarrow> teamB m \<noteq> Some (teamA m)"
  by (induction br pool r rule: pool_matches.induct) (auto simp: new_match_def bye_match_def)

lemma sides_nonempty [simp]: "sides m \<noteq> []"
  by (simp add: sides_def)

lemma distinct_concat_same_index:
  "distinct (concat xss) \<Longrightarrow> j < length xss \<Longrightarrow> k < length xss \<Longrightarrow>
     x \<in> set (xss ! j) \<Longrightarrow> x \<in> set (xss ! k) \<Longrightarrow> j = k"
proof (induction xss arbitrary: j k)
  case Nil
  then show ?case by simp
next
  case (Cons xs xss)
  have inter: "set xs \<inter> set (concat xss) = {}" and d: "distinct (concat xss)"
    using Cons.prems(1) by auto
  have later: "x \<in> set (concat xss)" if "n < length xss" "x \<in> set (xss ! n)" for n
    using that by (auto intro: nth_mem)
  show ?case
  proof (cases j)
    case 0
    show ?thesis
    proof (cases k)
      case 0
      with \<open>j = 0\<close> show ?thesis by simp
    next
      case (Suc k')
      with Cons.prems \<open>j = 0\<close> have "x \<in> set xs" "x \<in> set (concat xss)"
        using later [of k'] by auto
      with inter show ?thesis by auto
    qed
  next
    case (Suc j')
    show ?thesis
    proof (cases k)
      case 0
      with Cons.prems Suc have "x \<in> set xs" "x \<in> set (concat xss)"
        using later [of j'] by auto
      with inter show ?thesis by auto
    next
      case (Suc k')
      with Cons.prems \<open>j = Suc j'\<close> Cons.IH [OF d, of j' k'] show ?thesis by auto
    qed
  qed
qed

lemma distinct_concat_unique:
  assumes "distinct (concat xss)" "x \<in> set (concat xss)"
  shows "\<exists>!k. k < length xss \<and> x \<in> set (xss ! k)"
proof -
  from assms(2) obtain ys where "ys \<in> set xss" "x \<in> set ys"
    by auto
  then obtain k where k: "k < length xss" "x \<in> set (xss ! k)"
    by (auto simp: in_set_conv_nth)
  with distinct_concat_same_index [OF assms(1)] show ?thesis
    by blast
qed

lemma pool_matches_pairing:
  assumes "distinct pool"
  shows "is_pairing pool (pool_matches br pool r)"
proof -
  have "\<exists>!k. k < length (pool_matches br pool r) \<and> x \<in> set (sides (pool_matches br pool r ! k))"
    if "x \<in> set pool" for x
    using distinct_concat_unique [of "map sides (pool_matches br pool r)" x] assms that
    by (simp add: pool_matches_sides cong: conj_cong)
  then show ?thesis
    using assms
    by (auto simp: is_pairing_def pool_matches_length pool_matches_byes pool_matches_sides
          pool_matches_bye pool_matches_not_bye dest: pool_matches_no_self)
qed

lemma is_pairing_perm:
  assumes "is_pairing pool' ms" "mset pool' = mset pool"
  shows "is_pairing pool ms"
proof -
  from assms(2) have len: "length pool' = length pool" and st: "set pool' = set pool"
    by (metis size_mset, metis set_mset_mset)
  have "is_pairing pool' ms = is_pairing pool ms"
    unfolding is_pairing_def by (simp only: len st assms(2))
  with assms(1) show ?thesis by simp
qed

lemma fst_pair_round: "fst (pair_round st w) = pool_matches Upper st (randbits w)"
proof (induction st w rule: pair_round.induct)
  case (1 a b stack w)
  from 1 [OF prod.collapse] show ?case by (simp add: Let_def case_prod_beta)
qed (simp_all add: Let_def case_prod_beta)

lemma create_round_matches_pairing:
  assumes "distinct pool" "mset (shuffle pool) = mset pool"
  shows "is_pairing pool (fst (create_round_matches shuffle pool w))"
proof -
  have m: "mset (rev (shuffle pool)) = mset pool" using assms(2) by simp
  then have "distinct (rev (shuffle pool))"
    using assms(1) by (metis mset_eq_imp_distinct_iff)
  then have "is_pairing (rev (shuffle pool)) (pool_matches Upper (rev (shuffle pool)) (randbits w))"
    by (rule pool_matches_pairing)
  with m show ?thesis
    by (simp add: create_round_matches_def fst_pair_round is_pairing_perm)
qed

lemma keeps_winners_refl [simp]: "keeps_winners t t"
  by (simp add: keeps_winners_def)

lemma keeps_winners_trans: "keeps_winners t t' \<Longrightarrow> keeps_winners t' t'' \<Longrightarrow> keeps_winners t t''"
  by (auto simp: keeps_winners_def)

lemma keeps_winners_same_matches: "matches t' = matches t \<Longrightarrow> keeps_winners t t'"
  by (simp add: keeps_winners_def)

lemma keeps_winners_append: "matches t' = matches t @ ms \<Longrightarrow> keeps_winners t t'"
  by (simp add: keeps_winners_def nth_append)

lemma status_paired_doc [simp]: "status (paired_doc t r) = status t"
  and teams_paired_doc [simp]: "teams (paired_doc t r) = teams t"
  and champion_paired_doc [simp]: "champion (paired_doc t r) = champion t"
  and matches_paired_doc: "matches (paired_doc t r) =
        matches t @ pool_matches Upper (pending_upper t) r
          @ pool_matches Lower (pending_lower t)
              (\<lambda>i. r (i + length (pool_matches Upper (pending_upper t) r)))"
  by (simp_all add: paired_doc_def Let_def)

lemma matches_crowned [simp]: "matches (crowned t) = matches t"
  and teams_crowned [simp]: "teams (crowned t) = teams t"
  by (simp_all add: crowned_def split: list.splits)

lemma status_crowned: "status (crowned t) = Finished \<or> status (crowned t) = status t"
  by (simp add: crowned_def split: list.splits)

lemma length_set_winner [simp]: "length (set_winner i v ms) = length ms"
  by (induction ms) simp_all

lemma set_winner_keeps:
  "find (\<lambda>m. match_id m = i) ms = Some m \<Longrightarrow> \<not> truthy (winner m) \<Longrightarrow> j < length ms \<Longrightarrow>
     truthy (winner (ms ! j)) \<Longrightarrow> winner (set_winner i v ms ! j) = winner (ms ! j)"
proof (induction ms arbitrary: j)
  case Nil
  then show ?case by simp
next
  case (Cons a ms)
  then show ?case by (cases j) (auto split: if_splits)
qed

lemma keeps_winners_set_winner:
  "find_match t i = Some m \<Longrightarrow> \<not> truthy (winner m) \<Longrightarrow> matches t' = set_winner i v (matches t) \<Longrightarrow>
     keeps_winners t t'"
  by (simp add: keeps_winners_def find_match_def set_winner_keeps)

lemma matchresult_doc:
  assumes "get_tournament nm w = Some t"
  shows "\<exists>t'. get_tournament nm (snd (matchresult nm i wt lt w)) = Some t'
           \<and> keeps_winners t t'
           \<and> (status t = Finished \<longrightarrow> status t' = Finished)
           \<and> teams t' = teams t"
proof (cases "find_match t i")
  case None
  with assms show ?thesis by (simp add: matchresult_def)
next
  case (Some m)
  show ?thesis
  proof (cases "truthy (winner m) \<or> map_of (teams t) wt = None \<or> map_of (teams t) lt = None")
    case True
    with assms Some show ?thesis by (auto simp: matchresult_def split: option.splits)
  next
    case False
    then obtain wp lp where look: "map_of (teams t) wt = Some wp" "map_of (teams t) lt = Some lp"
      and f: "\<not> truthy (winner m)" by auto
    define t3 where "t3 = t\<lparr>matches := set_winner i wt (matches t),
        pending_lower := pending_lower t @ [lt], pending_upper := pending_upper t @ [wt]\<rparr>"
    have k3: "keeps_winners t t3"
      by (rule keeps_winners_set_winner [OF Some f]) (simp add: t3_def)
    define w3 where "w3 = update_one nm (\<lambda>u. u\<lparr>pending_upper := pending_upper t @ [wt]\<rparr>)
       (update_one nm (\<lambda>u. u\<lparr>pending_lower := pending_lower t @ [lt]\<rparr>)
       (update_one nm (\<lambda>u. u\<lparr>matches := set_winner i wt (matches u)\<rparr>) w))"
    have g3: "get_tournament nm w3 = Some t3"
      by (simp add: w3_def t3_def assms)
    show ?thesis
    proof (cases "fst (adjust_elo_for_rosters wp lp w3)")
      case None
      have "get_tournament nm (snd (matchresult nm i wt lt w))
          = Some (crowned (paired_doc t3 (randbits (snd (adjust_elo_for_rosters wp lp w3)))))"
        using assms Some f look None g3
        by (simp add: matchresult_def Let_def case_prod_beta try_pair_pending_get w3_def t3_def)
      moreover have "keeps_winners t3 (crowned (paired_doc t3 r))" for r
        by (rule keeps_winners_append) (simp add: matches_paired_doc)
      moreover have "status (crowned (paired_doc t3 r)) = Finished" if "status t = Finished" for r
        using status_crowned [of "paired_doc t3 r"] that by (simp add: t3_def)
      moreover have "teams (crowned (paired_doc t3 r)) = teams t" for r
        by (simp add: t3_def)
      ultimately show ?thesis using k3 by (auto intro: keeps_winners_trans)
    next
      case (Some x)
      have "get_tournament nm (snd (matchresult nm i wt lt w)) = Some t3"
        using assms \<open>find_match t i = Some m\<close> f look Some g3
        by (simp add: matchresult_def Let_def case_prod_beta w3_def t3_def)
      with k3 show ?thesis by (simp add: t3_def)
    qed
  qed
qed

lemma matchresult_other:
  "nm' \<noteq> nm \<Longrightarrow> get_tournament nm' (snd (matchresult nm i wt lt w)) = get_tournament nm' w"
  by (simp add: matchresult_def Let_def case_prod_beta split: option.splits)

lemma get_set_elo [simp]: "get_tournament nm (set_elo pid v w) = get_tournament nm w"
  by (simp add: set_elo_def get_tournament_def split: option.splits)

lemma get_create_tournament_doc:
  "get_tournament nm (create_tournament_doc nm' w) =
     (if nm = nm' then Some empty_tournament else get_tournament nm w)"
  by (simp add: create_tournament_doc_def get_tournament_def)

lemma addteam_other:
  "nm' \<noteq> nm \<Longrightarrow> get_tournament nm' (snd (addteam nm tn members w)) = get_tournament nm' w"
  by (simp add: addteam_def Let_def split: option.splits sum.splits)

lemma starttourney_other:
  "nm' \<noteq> nm \<Longrightarrow> get_tournament nm' (snd (starttourney sh nm w)) = get_tournament nm' w"
proof -
  have "get_tournament nm' (fold (append_match_to_tourney nm) ms v) = get_tournament nm' v"
    if "nm' \<noteq> nm" for ms v
    using that by (induction ms arbitrary: v) simp_all
  then show "nm' \<noteq> nm \<Longrightarrow> ?thesis"
    by (simp add: starttourney_def Let_def case_prod_beta create_round_matches_def split: option.splits)
qed

lemma step_keeps:
  assumes "get_tournament nm w = Some t"
  shows "\<exists>t'. get_tournament nm (snd (step c w)) = Some t' \<and> keeps_winners t t'"
proof (cases c)
  case (Register pid d)
  with assms show ?thesis by (simp add: register_def)
next
  case (Profile pid d)
  with assms show ?thesis by (simp add: profile_def)
next
  case (Setelo pid d v)
  with assms show ?thesis by (simp add: setelo_def Let_def)
next
  case (Resetelo pid d)
  with assms show ?thesis by (simp add: resetelo_def)
next
  case (Createtourney nm')
  with assms show ?thesis
    by (auto simp: createtourney_def get_create_tournament_doc split: option.splits)
next
  case (Addteam nm' tn members)
  show ?thesis
  proof (cases "nm' = nm")
    case True
    from addteam_teams_only [OF assms, of tn members] obtain ts
      where "get_tournament nm (snd (addteam nm tn members w)) = Some (t\<lparr>teams := ts\<rparr>)" by blast
    with True Addteam show ?thesis
      by (simp add: keeps_winners_same_matches)
  next
    case False
    with assms Addteam show ?thesis by (simp add: addteam_other)
  qed
next
  case (Starttourney sh nm')
  show ?thesis
  proof (cases "nm' = nm")
    case True
    show ?thesis
    proof (cases "length (teams t) < 2")
      case True
      with assms Starttourney \<open>nm' = nm\<close> show ?thesis by (simp add: starttourney_few)
    next
      case False
      then have "2 \<le> length (teams t)" by simp
      from starttourney_enough [OF assms this, of sh] Starttourney \<open>nm' = nm\<close> show ?thesis
        by (simp add: keeps_winners_append)
    qed
  next
    case False
    with assms Starttourney show ?thesis by (simp add: starttourney_other)
  qed
next
  case (Matchresult nm' i wt lt)
  show ?thesis
  proof (cases "nm' = nm")
    case True
    with matchresult_doc [OF assms, of i wt lt] Matchresult show ?thesis by auto
  next
    case False
    with assms Matchresult show ?thesis by (simp add: matchresult_other)
  qed
qed

lemma run_keeps:
  "get_tournament nm w = Some t \<Longrightarrow>
     \<exists>t'. get_tournament nm (run cs w) = Some t' \<and> keeps_winners t t'"
proof (induction cs arbitrary: w t)
  case Nil
  then show ?case by simp
next
  case (Cons c cs)
  from step_keeps [OF Cons.prems, of c] obtain t1
    where t1: "get_tournament nm (snd (step c w)) = Some t1" "keeps_winners t t1" by blast
  from Cons.IH [OF t1(1)] obtain t' where "get_tournament nm (run cs (snd (step c w))) = Some t'"
    "keeps_winners t1 t'" by blast
  with t1(2) show ?case by (auto intro: keeps_winners_trans)
qed

lemma run_keeps_winner:
  assumes "get_tournament nm w = Some t" "j < length (matches t)" "truthy (winner (matches t ! j))"
  shows "\<exists>t'. get_tournament nm (run cs w) = Some t' \<and> j < length (matches t')
            \<and> winner (matches t' ! j) = winner (matches t ! j)"
  using run_keeps [OF assms(1), of cs] assms(2,3) by (auto simp: keeps_winners_def)






lemma eliminated_loop_eq:
  "eliminated_loop ms el =
     el \<union> {l. \<exists>m \<in> set ms. bracket m = Lower \<and> winner m \<noteq> None \<and> \<not> bye m
                   \<and> loser_of m = Some l \<and> l \<noteq> []}"
proof (induction ms arbitrary: el)
  case Nil
  show ?case by simp
next
  case (Cons a ms)
  show ?case
  proof (cases "bracket a = Lower \<and> winner a \<noteq> None \<and> \<not> bye a")
    case False
    then show ?thesis
      unfolding eliminated_loop.simps Cons.IH by auto
  next
    case True
    show ?thesis
    proof (cases "loser_of a")
      case None
      with True show ?thesis
        unfolding eliminated_loop.simps Cons.IH by auto
    next
      case (Some l)
      with True show ?thesis
        unfolding eliminated_loop.simps Cons.IH by (cases "l = []") auto
    qed
  qed
qed

lemma proper_loser:
  assumes "proper_match m"
  shows "loser_of m = Some l \<and> l \<noteq> [] \<longleftrightarrow> losing_side l m"
proof -
  from assms obtain b where b: "teamB m = Some b" "teamA m \<noteq> b" "teamA m \<noteq> []" "b \<noteq> []"
    and w: "winner m = Some (teamA m) \<or> winner m = Some b"
    by (cases "teamB m") (simp_all add: proper_match_def)
  have s: "set (sides m) = {teamA m, b}"
    by (simp add: sides_def b(1))
  from w show ?thesis
  proof
    assume wa: "winner m = Some (teamA m)"
    with b have "loser_of m = Some b" by (simp add: loser_of_def)
    moreover have "losing_side l m \<longleftrightarrow> l = b"
      unfolding losing_side_def s wa using b(2) by auto
    ultimately show ?thesis using b(4) by auto
  next
    assume wb: "winner m = Some b"
    with b have "loser_of m = Some (teamA m)" by (simp add: loser_of_def)
    moreover have "losing_side l m \<longleftrightarrow> l = teamA m"
      unfolding losing_side_def s wb using b(2) by auto
    ultimately show ?thesis using b(3) by auto
  qed
qed

lemma eliminated_proper:
  assumes "\<forall>m \<in> set (matches t). bracket m = Lower \<and> winner m \<noteq> None \<and> \<not> bye m \<longrightarrow> proper_match m"
  shows "eliminated t = {l. \<exists>m \<in> set (matches t). bracket m = Lower \<and> \<not> bye m \<and> losing_side l m}"
proof -
  have "(bracket m = Lower \<and> winner m \<noteq> None \<and> \<not> bye m \<and> loser_of m = Some l \<and> l \<noteq> [])
        \<longleftrightarrow> (bracket m = Lower \<and> \<not> bye m \<and> losing_side l m)"
    if "m \<in> set (matches t)" for m l
  proof (cases "bracket m = Lower \<and> winner m \<noteq> None \<and> \<not> bye m")
    case True
    with assms that have "proper_match m" by blast
    from proper_loser [OF this, of l] True show ?thesis by auto
  next
    case False
    then show ?thesis by (auto simp: losing_side_def)
  qed
  then show ?thesis
    unfolding eliminated_def eliminated_loop_eq by blast
qed

lemma alive_crowned [simp]: "alive (crowned t) = alive t"
  by (simp add: alive_def eliminated_def)

lemma crowned_single:
  "alive t = [c] \<Longrightarrow> status (crowned t) = Finished \<and> champion (crowned t) = Some c"
  by (simp add: crowned_def)

subsection \<open>Ratings\<close>











lemma elo_in_captured [simp]: "elo_in (captured w) p = elo (doc_before w p)"
  by (simp add: elo_in_def captured_def)







lemma list_all2_values:
  "list_all2 (\<lambda>p u. fst u = p \<and> P p (snd u)) ids us \<Longrightarrow> u \<in> set us \<Longrightarrow> P (fst u) (snd u)"
  by (induction ids us rule: list_all2_induct) auto





subsection \<open>The rating step does not read the tournaments\<close>








lemma randbits_fetch_docs [simp]: "randbits (snd (fetch_docs pids (ps, w))) = randbits w"
  by (induction pids arbitrary: ps w) (simp_all add: case_prod_beta)

lemma randbits_persist [simp]: "randbits (snd (persist ws us w)) = randbits w"
proof (induction us arbitrary: w)
  case Nil
  show ?case by simp
next
  case (Cons u us)
  obtain pid new_elo where u: "u = (pid, new_elo)" by (cases u)
  show ?case
    by (simp add: u Cons.IH inc_wins_set_elo_def inc_losses_set_elo_def split: option.splits)
qed

lemma randbits_adjust_rosters [simp]: "randbits (snd (adjust_elo_for_rosters wp lp w)) = randbits w"
  by (simp add: adjust_elo_for_rosters_def adjust_elo_for_match_def case_prod_beta
        split: roster.splits sum.splits)

subsection \<open>A report that is carried out\<close>


lemma status_reported [simp]: "status (reported i wt lt t) = status t"
  and teams_reported [simp]: "teams (reported i wt lt t) = teams t"
  and champion_reported [simp]: "champion (reported i wt lt t) = champion t"
  and matches_reported: "matches (reported i wt lt t) = set_winner i wt (matches t)"
  by (simp_all add: reported_def)



lemma find_match_crowned [simp]: "find_match (crowned t) i = find_match t i"
  by (simp add: find_match_def)


subsection \<open>A report on a finished tournament\<close>

lemma get_as_running:
  "get_tournament nm (as_running nm w) = map_option (\<lambda>t. t\<lparr>status := Running\<rparr>) (get_tournament nm w)"
  by (simp add: as_running_def)




lemma alive_status_update [simp]: "alive (t\<lparr>status := s\<rparr>) = alive t"
  by (simp add: alive_def eliminated_def)




subsection \<open>Ratings at which the float arithmetic shows\<close>

lemma floor_log2:
  fixes x :: real
  assumes "2 ^ n \<le> x" and "x < 2 ^ Suc n"
  shows "\<lfloor>log 2 x\<rfloor> = int n"
proof -
  have x0: "0 < x" using assms(1) by (meson less_le_trans zero_less_numeral zero_less_power)
  have "2 powr real n \<le> x" using assms(1) by (simp add: powr_realpow)
  then have a: "real n \<le> log 2 x" using x0 by (simp add: le_log_iff)
  have "x < 2 powr real (Suc n)" using assms(2) by (simp only: powr_realpow zero_less_numeral)
  then have b: "log 2 x < real (Suc n)" using x0 by (subst log_less_iff) simp_all
  from a b show ?thesis by (intro floor_unique) simp_all
qed

text \<open>\<open>2 ^ 53 + 1\<close> is halfway between two doubles and rounds to the even one, \<open>2 ^ 53\<close>.\<close>

lemma fl_beyond_53_bits: "fl 9007199254740993 = 9007199254740992"
proof -
  have "\<lfloor>log 2 (9007199254740993::real)\<rfloor> = int 53"
    by (rule floor_log2) simp_all
  then have l: "\<lfloor>log 2 \<bar>9007199254740993::real\<bar>\<rfloor> = 53" by simp
  have q: "(2::real) powr real_of_int (53 - 52) = 2" by simp
  have f: "\<lfloor>9007199254740993 / (2::real)\<rfloor> = 4503599627370496"
    by (rule floor_unique) simp_all
  have r: "py_round (9007199254740993 / 2) = 4503599627370496"
    unfolding py_round_def Let_def f by simp
  show ?thesis
    unfolding fl_def Let_def l by (simp add: r)
qed

lemma not_huge_54: "\<bar>x\<bar> < 2 ^ 54 \<Longrightarrow> \<not> huge \<le> x \<and> \<not> x \<le> - huge \<and> \<not> huge \<le> \<bar>x\<bar>"
  using huge_large by auto

lemma fl_ext_beyond_53_bits: "fl_ext 9007199254740993 = Fin 9007199254740992"
  using not_huge_54 [of 9007199254740993] by (simp add: fl_ext_def fl_beyond_53_bits)






section \<open>The claims\<close>

text \<open>
  C10 (the code departs from the claim). A \<open>matchresult\<close> that replies, and a
  \<open>starttourney\<close> that starts, leave both pending pools empty. But \<open>matchresult\<close>
  writes the winner and the loser into the pools before it adjusts the ratings, and the
  division by the length of an empty roster raises ZeroDivisionError there: the pairing
  pass is not run and the teams stay in the pools. In the tournament F (A with one
  player, B with none, started twice) both pools are empty before the report on match
  "1"; the report raises and leaves A in the upper pool and B in the lower pool; both
  are still there after an \<open>addteam\<close> that is carried out; and the next report, on
  match "2", pairs them with its own winner and loser into the matches "3" (A against
  B, upper) and "4" (B against A, lower).
\<close>

theorem pools_carried_after_raised_report:
  "map_option pending_upper (get_tournament ''F'' empty_roster_started) = Some []
   \<and> map_option pending_lower (get_tournament ''F'' empty_roster_started) = Some []
   \<and> fst (matchresult ''F'' ''1'' ''A'' ''B'' empty_roster_started) = Raised ZeroDivisionError
   \<and> map_option pending_upper (get_tournament ''F'' raised_world) = Some [''A'']
   \<and> map_option pending_lower (get_tournament ''F'' raised_world) = Some [''B'']
   \<and> fst (addteam ''F'' ''B'' [(2, ''b'')] raised_world) = Added 1
   \<and> map_option pending_upper
        (get_tournament ''F'' (snd (addteam ''F'' ''B'' [(2, ''b'')] raised_world))) = Some [''A'']
   \<and> map_option pending_lower
        (get_tournament ''F'' (snd (addteam ''F'' ''B'' [(2, ''b'')] raised_world))) = Some [''B'']
   \<and> fst (matchresult ''F'' ''2'' ''B'' ''A'' (snd (addteam ''F'' ''B'' [(2, ''b'')] raised_world)))
       = Recorded
   \<and> map_option matches
        (get_tournament ''F''
           (snd (matchresult ''F'' ''2'' ''B'' ''A'' (snd (addteam ''F'' ''B'' [(2, ''b'')] raised_world)))))
       = Some [(new_match ''1'' ''A'' ''B'' Upper)\<lparr>winner := Some ''A''\<rparr>,
               (new_match ''2'' ''A'' ''B'' Upper)\<lparr>winner := Some ''B''\<rparr>,
               new_match ''3'' ''A'' ''B'' Upper, new_match ''4'' ''B'' ''A'' Lower]
   \<and> map_option pending_upper
        (get_tournament ''F''
           (snd (matchresult ''F'' ''2'' ''B'' ''A'' (snd (addteam ''F'' ''B'' [(2, ''b'')] raised_world)))))
       = Some []
   \<and> map_option pending_lower
        (get_tournament ''F''
           (snd (matchresult ''F'' ''2'' ''B'' ''A'' (snd (addteam ''F'' ''B'' [(2, ''b'')] raised_world)))))
       = Some []"
  by (simp add: raised_world_def empty_roster_started_def eval_defs)

text \<open>
  C1 (the code departs from the claim). In the tournament of three teams where the start
  pairs A with B (match "1") and gives C the bye (match "2"), the report that A beat B
  is recorded, and B receives a bye in the lower bracket. But the winner of a bye is
  never put into a pending pool: after the report the upper pool holds A alone, A
  receives a bye of its own (match "3"), no match of A against C is created, and no
  unresolved match is left.
\<close>

theorem three_teams_report_creates_only_byes:
  "map_option matches (get_tournament ''T'' three_started)
     = Some [new_match ''1'' ''A'' ''B'' Upper, bye_match ''2'' ''C'' Upper]
   \<and> map_option pending_upper (get_tournament ''T'' three_started) = Some []
   \<and> fst (matchresult ''T'' ''1'' ''A'' ''B'' three_started) = Recorded
   \<and> map_option matches (get_tournament ''T'' (snd (matchresult ''T'' ''1'' ''A'' ''B'' three_started)))
     = Some [(new_match ''1'' ''A'' ''B'' Upper)\<lparr>winner := Some ''A''\<rparr>,
             bye_match ''2'' ''C'' Upper, bye_match ''3'' ''A'' Upper, bye_match ''4'' ''B'' Lower]
   \<and> map_option pending_upper (get_tournament ''T'' (snd (matchresult ''T'' ''1'' ''A'' ''B'' three_started)))
     = Some []
   \<and> map_option pending_lower (get_tournament ''T'' (snd (matchresult ''T'' ''1'' ''A'' ''B'' three_started)))
     = Some []
   \<and> map_option alive (get_tournament ''T'' (snd (matchresult ''T'' ''1'' ''A'' ''B'' three_started)))
     = Some [''A'', ''B'', ''C'']"
  by (simp add: three_started_def three_teams_def eval_defs)

text \<open>
  C2 (the code departs from the claim). Match "1" of the three-team tournament is A
  against B. A report on it that names C as the winner and A as the loser, both teams
  of the tournament, is not rejected: the reply is that the result is recorded, C is
  stored as the winner of the match, C's player gains 16 rating points and A's player
  loses 16.
\<close>

theorem report_with_teams_not_on_match_is_accepted:
  "map_option (\<lambda>t. find_match t ''1'') (get_tournament ''T'' three_started)
     = Some (Some (new_match ''1'' ''A'' ''B'' Upper))
   \<and> fst (matchresult ''T'' ''1'' ''C'' ''A'' three_started) = Recorded
   \<and> map_option (\<lambda>t. find_match t ''1'')
        (get_tournament ''T'' (snd (matchresult ''T'' ''1'' ''C'' ''A'' three_started)))
     = Some (Some ((new_match ''1'' ''A'' ''B'' Upper)\<lparr>winner := Some ''C''\<rparr>))
   \<and> map_option elo (players_col three_started 3) = Some 1200
   \<and> map_option elo (players_col (snd (matchresult ''T'' ''1'' ''C'' ''A'' three_started)) 3) = Some 1216
   \<and> map_option elo (players_col three_started 1) = Some 1200
   \<and> map_option elo (players_col (snd (matchresult ''T'' ''1'' ''C'' ''A'' three_started)) 1) = Some 1184"
  by (simp add: three_started_def three_teams_def eval_defs)




text \<open>
  C5. Pairing a pool of N distinct team names, by \<open>create_round_matches\<close> (whatever
  permutation the shuffle applies) and by a pass of \<open>try_pair_pending\<close> over a pending
  pool, creates \<open>(N + 1) div 2\<close> matches, of which exactly one is a bye when N is odd and
  none when N is even. Every team of the pool is a side of exactly one of the matches
  (and there once), no match pairs a team with itself, a bye has no \<open>teamB\<close> and its
  \<open>teamA\<close> as the winner, and a match that is not a bye has two sides and no winner.
  The pass over a pending pool leaves the local pool empty.
\<close>

theorem pairing_uses_every_team_once:
  assumes "distinct pool"
  shows "(mset (shuffle pool) = mset pool \<longrightarrow>
            is_pairing pool (fst (create_round_matches shuffle pool w)))
       \<and> (get_tournament nm w = Some t \<longrightarrow>
            (\<exists>ms. map_option matches (get_tournament nm (snd (snd (pair_pending nm br pool updated w))))
                     = Some (matches t @ ms)
                 \<and> is_pairing pool ms \<and> (\<forall>m \<in> set ms. bracket m = br)
                 \<and> fst (pair_pending nm br pool updated w) = []))"
proof (intro conjI impI)
  assume "mset (shuffle pool) = mset pool"
  with assms show "is_pairing pool (fst (create_round_matches shuffle pool w))"
    by (rule create_round_matches_pairing)
next
  assume "get_tournament nm w = Some t"
  then have "map_option matches (get_tournament nm (snd (snd (pair_pending nm br pool updated w))))
      = Some (matches t @ pool_matches br pool (randbits w))"
    by (simp add: pair_pending_get)
  with pool_matches_pairing [OF assms, of br "randbits w"] pool_matches_bracket [of _ br pool "randbits w"]
  show "\<exists>ms. map_option matches (get_tournament nm (snd (snd (pair_pending nm br pool updated w))))
                = Some (matches t @ ms)
            \<and> is_pairing pool ms \<and> (\<forall>m \<in> set ms. bracket m = br)
            \<and> fst (pair_pending nm br pool updated w) = []"
    by auto
qed

theorem pairing_uses_every_team_once_witness:
  "distinct [''A'', ''B'', ''C''] \<and> mset (rev [''A'', ''B'', ''C'']) = mset [''A'', ''B'', ''C'']
   \<and> fst (create_round_matches rev [''A'', ''B'', ''C''] three_teams)
       = [new_match ''1'' ''A'' ''B'' Upper, bye_match ''2'' ''C'' Upper]
   \<and> is_pairing [''A'', ''B'', ''C''] (fst (create_round_matches rev [''A'', ''B'', ''C''] three_teams))
   \<and> (\<exists>ms. map_option matches
              (get_tournament ''T'' (snd (snd (pair_pending ''T'' Lower [''A'', ''B'', ''C''] False three_teams))))
             = Some ([] @ ms)
          \<and> is_pairing [''A'', ''B'', ''C''] ms)"
proof -
  have d: "distinct [''A'', ''B'', ''C'']" by simp
  have m: "mset (rev [''A'', ''B'', ''C'']) = mset [''A'', ''B'', ''C'']" by simp
  obtain t where t: "get_tournament ''T'' three_teams = Some t" "matches t = []"
    by (simp add: three_teams_def eval_defs)
  have c: "fst (create_round_matches rev [''A'', ''B'', ''C''] three_teams)
       = [new_match ''1'' ''A'' ''B'' Upper, bye_match ''2'' ''C'' Upper]"
    by (simp add: three_teams_def eval_defs)
  from pairing_uses_every_team_once [OF d, of rev three_teams "''T''" t Lower False] d m t c
  show ?thesis by auto
qed

text \<open>
  C7, as stated, fails: \<open>starttourney\<close> does not look at the status. The three-team
  tournament is running after its start, and a second \<open>starttourney\<close> starts it again
  with a new round (matches "3" and "4").
\<close>

theorem start_of_running_tournament_counterexample:
  "map_option status (get_tournament ''T'' three_started) = Some Running
   \<and> fst (starttourney rev ''T'' three_started)
       = Started [new_match ''3'' ''A'' ''B'' Upper, bye_match ''4'' ''C'' Upper]"
  by (simp add: three_started_def three_teams_def eval_defs)

text \<open>
  C7, amended. On an existing tournament \<open>starttourney\<close> replies InvalidState exactly
  when the tournament has fewer than two teams, whatever its status, and then changes
  nothing. Otherwise it pairs the full list of team names with \<open>create_round_matches\<close>
  into matches tagged upper (every team in exactly one match when the shuffle is a
  permutation), appends these matches to the history and their ids as one round to the
  upper rounds, sets both pending pools empty and the status to running.
\<close>

theorem start_checks_team_count_only:
  assumes "get_tournament nm w = Some t"
  shows "(fst (starttourney shuffle nm w) = InvalidState \<longleftrightarrow> length (teams t) < 2)
       \<and> (length (teams t) < 2 \<longrightarrow> snd (starttourney shuffle nm w) = w)
       \<and> (2 \<le> length (teams t) \<longrightarrow>
            fst (starttourney shuffle nm w)
              = Started (fst (create_round_matches shuffle (map fst (teams t)) w))
          \<and> get_tournament nm (snd (starttourney shuffle nm w))
              = Some (t\<lparr>matches := matches t @ fst (create_round_matches shuffle (map fst (teams t)) w),
                      upper_rounds := upper_rounds t
                        @ [map match_id (fst (create_round_matches shuffle (map fst (teams t)) w))],
                      pending_upper := [], pending_lower := [], status := Running\<rparr>)
          \<and> (\<forall>m \<in> set (fst (create_round_matches shuffle (map fst (teams t)) w)). bracket m = Upper)
          \<and> (distinct (map fst (teams t)) \<and> mset (shuffle (map fst (teams t))) = mset (map fst (teams t))
               \<longrightarrow> is_pairing (map fst (teams t))
                     (fst (create_round_matches shuffle (map fst (teams t)) w))))"
proof (cases "length (teams t) < 2")
  case True
  with starttourney_few [OF assms True, of shuffle] show ?thesis by simp
next
  case False
  then have two: "2 \<le> length (teams t)" by simp
  have "bracket m = Upper"
    if "m \<in> set (fst (create_round_matches shuffle (map fst (teams t)) w))" for m
    using that by (simp add: create_round_matches_def fst_pair_round pool_matches_bracket)
  with starttourney_enough [OF assms two, of shuffle] False create_round_matches_pairing
  show ?thesis by auto
qed

theorem start_checks_team_count_only_witness:
  "(\<exists>t. get_tournament ''T'' three_teams = Some t \<and> 2 \<le> length (teams t))
   \<and> fst (starttourney rev ''T'' three_teams)
       = Started [new_match ''1'' ''A'' ''B'' Upper, bye_match ''2'' ''C'' Upper]
   \<and> map_option status (get_tournament ''T'' (snd (starttourney rev ''T'' three_teams))) = Some Running
   \<and> (\<exists>t. get_tournament ''F'' (snd (createtourney ''F'' three_teams)) = Some t \<and> length (teams t) < 2)
   \<and> starttourney rev ''F'' (snd (createtourney ''F'' three_teams))
       = (InvalidState, snd (createtourney ''F'' three_teams))"
proof -
  obtain t where t: "get_tournament ''T'' three_teams = Some t" "2 \<le> length (teams t)"
    "map fst (teams t) = [''A'', ''B'', ''C'']"
    by (simp add: three_teams_def eval_defs)
  have c: "fst (create_round_matches rev [''A'', ''B'', ''C''] three_teams)
       = [new_match ''1'' ''A'' ''B'' Upper, bye_match ''2'' ''C'' Upper]"
    by (simp add: three_teams_def eval_defs)
  obtain u where u: "get_tournament ''F'' (snd (createtourney ''F'' three_teams)) = Some u"
    "length (teams u) < 2"
    by (simp add: three_teams_def eval_defs)
  from start_checks_team_count_only [OF t(1), of rev] t c
  have a: "fst (starttourney rev ''T'' three_teams)
       = Started [new_match ''1'' ''A'' ''B'' Upper, bye_match ''2'' ''C'' Upper]"
    "map_option status (get_tournament ''T'' (snd (starttourney rev ''T'' three_teams))) = Some Running"
    by simp_all
  from start_checks_team_count_only [OF u(1), of rev] u(2)
  have b: "starttourney rev ''F'' (snd (createtourney ''F'' three_teams))
       = (InvalidState, snd (createtourney ''F'' three_teams))"
    by (simp add: prod_eq_iff)
  from a b t u show ?thesis by blast
qed

text \<open>
  C8, as stated, fails: \<open>addteam\<close> does not look at the status. The three-team
  tournament is running after its start, and \<open>addteam\<close> adds a fourth team D to it.
\<close>

theorem add_team_in_running_tournament_counterexample:
  "map_option status (get_tournament ''T'' three_started) = Some Running
   \<and> fst (addteam ''T'' ''D'' [(4, ''d'')] three_started) = Added 1
   \<and> map_option teams (get_tournament ''T'' (snd (addteam ''T'' ''D'' [(4, ''d'')] three_started)))
       = Some [(''A'', Roster [1]), (''B'', Roster [2]), (''C'', Roster [3]), (''D'', Roster [4])]"
  by (simp add: three_started_def three_teams_def eval_defs)

text \<open>
  C8, amended. \<open>addteam\<close> replies NotFound and changes nothing when the tournament is
  absent. On an existing tournament it is carried out whatever the status, and of the
  tournament document only the teams can change. For a team name that is one plain
  field name (not empty, without a dot or a NUL, not starting with a dollar sign) the
  roster stored under the team name is exactly the list of the members' ids (an
  existing roster of that name is replaced, not merged), the other teams keep their
  rosters, and a new name is added after the existing ones. For any other team name
  the update path has several components or an operator, and what the database stores
  is not stated.
\<close>

theorem add_team_replaces_roster:
  "(get_tournament nm w = None \<longrightarrow> addteam nm team_name members w = (NotFound, w))
   \<and> (get_tournament nm w = Some t \<longrightarrow>
        (\<exists>ts. get_tournament nm (snd (addteam nm team_name members w)) = Some (t\<lparr>teams := ts\<rparr>)))
   \<and> (get_tournament nm w = Some t \<and> plain_field_name team_name \<longrightarrow>
        fst (addteam nm team_name members w) = Added (length members)
      \<and> (\<exists>t'. get_tournament nm (snd (addteam nm team_name members w)) = Some t'
            \<and> t' = t\<lparr>teams := teams t'\<rparr>
            \<and> map_of (teams t') team_name = Some (Roster (map fst members))
            \<and> (\<forall>other. other \<noteq> team_name \<longrightarrow> map_of (teams t') other = map_of (teams t) other)
            \<and> map fst (teams t') = (if team_name \<in> fst ` set (teams t) then map fst (teams t)
                                     else map fst (teams t) @ [team_name])))"
proof (intro conjI impI)
  assume "get_tournament nm w = None"
  then show "addteam nm team_name members w = (NotFound, w)" by (rule addteam_absent)
next
  assume "get_tournament nm w = Some t"
  then show "\<exists>ts. get_tournament nm (snd (addteam nm team_name members w)) = Some (t\<lparr>teams := ts\<rparr>)"
    by (rule addteam_teams_only)
next
  assume "get_tournament nm w = Some t \<and> plain_field_name team_name"
  then have t: "get_tournament nm w = Some t" and p: "plain_field_name team_name" by simp_all
  from addteam_present [OF t p, of members]
  show "fst (addteam nm team_name members w) = Added (length members)" by simp
  from addteam_present [OF t p, of members]
  show "\<exists>t'. get_tournament nm (snd (addteam nm team_name members w)) = Some t'
            \<and> t' = t\<lparr>teams := teams t'\<rparr>
            \<and> map_of (teams t') team_name = Some (Roster (map fst members))
            \<and> (\<forall>other. other \<noteq> team_name \<longrightarrow> map_of (teams t') other = map_of (teams t) other)
            \<and> map fst (teams t') = (if team_name \<in> fst ` set (teams t) then map fst (teams t)
                                     else map fst (teams t) @ [team_name])"
    by (simp add: update_conv' update_keys)
qed

theorem add_team_replaces_roster_witness:
  "get_tournament ''U'' three_started = None
   \<and> addteam ''U'' ''A'' [(7, ''g'')] three_started = (NotFound, three_started)
   \<and> plain_field_name ''A''
   \<and> map_option status (get_tournament ''T'' three_started) = Some Running
   \<and> map_option teams (get_tournament ''T'' three_started)
       = Some [(''A'', Roster [1]), (''B'', Roster [2]), (''C'', Roster [3])]
   \<and> fst (addteam ''T'' ''A'' [(7, ''g''), (8, ''h'')] three_started) = Added 2
   \<and> (\<exists>t'. get_tournament ''T'' (snd (addteam ''T'' ''A'' [(7, ''g''), (8, ''h'')] three_started)) = Some t'
          \<and> map_of (teams t') ''A'' = Some (Roster [7, 8])
          \<and> map_of (teams t') ''B'' = Some (Roster [2])
          \<and> map fst (teams t') = [''A'', ''B'', ''C''])"
proof -
  have n: "get_tournament ''U'' three_started = None"
    by (simp add: three_started_def three_teams_def eval_defs)
  have p: "plain_field_name ''A''"
    by (simp add: plain_field_name_def)
  obtain t where t: "get_tournament ''T'' three_started = Some t"
    "teams t = [(''A'', Roster [1]), (''B'', Roster [2]), (''C'', Roster [3])]"
    "status t = Running"
    by (simp add: three_started_def three_teams_def eval_defs)
  from add_team_replaces_roster
      [where nm = "''U''" and w = three_started and team_name = "''A''" and members = "[(7, ''g'')]"] n
  have a: "addteam ''U'' ''A'' [(7, ''g'')] three_started = (NotFound, three_started)" by simp
  from add_team_replaces_roster
      [where nm = "''T''" and w = three_started and t = t and team_name = "''A''"
         and members = "[(7, ''g''), (8, ''h'')]"] t p
  obtain t' where f: "fst (addteam ''T'' ''A'' [(7, ''g''), (8, ''h'')] three_started) = Added 2"
    and t': "get_tournament ''T'' (snd (addteam ''T'' ''A'' [(7, ''g''), (8, ''h'')] three_started)) = Some t'"
      "map_of (teams t') ''A'' = Some (Roster [7, 8])"
      "\<forall>other. other \<noteq> ''A'' \<longrightarrow> map_of (teams t') other = map_of (teams t) other"
      "map fst (teams t') = [''A'', ''B'', ''C'']"
    by auto
  from t'(3) have "map_of (teams t') ''B'' = map_of (teams t) ''B''" by simp
  with t(2) have "map_of (teams t') ''B'' = Some (Roster [2])" by simp
  with f t' have b: "fst (addteam ''T'' ''A'' [(7, ''g''), (8, ''h'')] three_started) = Added 2
     \<and> (\<exists>t'. get_tournament ''T'' (snd (addteam ''T'' ''A'' [(7, ''g''), (8, ''h'')] three_started)) = Some t'
          \<and> map_of (teams t') ''A'' = Some (Roster [7, 8])
          \<and> map_of (teams t') ''B'' = Some (Roster [2])
          \<and> map fst (teams t') = [''A'', ''B'', ''C''])"
    by simp
  from n a p t b show ?thesis by simp
qed


text \<open>
  C9. A match has a winner when its \<open>winner\<close> is true for Python (a team name, which is
  not empty). A \<open>matchresult\<close> on the id of a match that has a winner replies
  AlreadyResolved and returns the world as it was: pools, players and matches are
  unchanged. Hence the winner stored at a position of the match history, once set,
  is the same after any run of commands.
\<close>

theorem resolved_match_is_final:
  "(get_tournament nm w = Some t \<and> find_match t i = Some m \<and> truthy (winner m) \<longrightarrow>
      matchresult nm i winner_team loser_team w = (AlreadyResolved, w))
   \<and> (get_tournament nm w = Some t \<and> j < length (matches t) \<and> truthy (winner (matches t ! j)) \<longrightarrow>
      (\<exists>t'. get_tournament nm (run cs w) = Some t' \<and> j < length (matches t')
            \<and> winner (matches t' ! j) = winner (matches t ! j)))"
  using matchresult_resolved run_keeps_winner by blast

theorem resolved_match_is_final_witness:
  "(\<exists>t m. get_tournament ''T'' three_started = Some t \<and> find_match t ''2'' = Some m
         \<and> winner m = Some ''C'' \<and> truthy (winner m) \<and> matches t ! 1 = m \<and> 1 < length (matches t))
   \<and> matchresult ''T'' ''2'' ''A'' ''C'' three_started = (AlreadyResolved, three_started)
   \<and> (\<exists>t'. get_tournament ''T''
             (run [Matchresult ''T'' ''2'' ''A'' ''C'', Matchresult ''T'' ''1'' ''A'' ''B'',
                   Starttourney rev ''T''] three_started) = Some t'
          \<and> 1 < length (matches t') \<and> winner (matches t' ! 1) = Some ''C'')"
proof -
  obtain t where t: "get_tournament ''T'' three_started = Some t"
    "matches t = [new_match ''1'' ''A'' ''B'' Upper, bye_match ''2'' ''C'' Upper]"
    by (simp add: three_started_def three_teams_def eval_defs)
  have m: "find_match t ''2'' = Some (bye_match ''2'' ''C'' Upper)"
    "truthy (winner (bye_match ''2'' ''C'' Upper))" "winner (bye_match ''2'' ''C'' Upper) = Some ''C''"
    "matches t ! 1 = bye_match ''2'' ''C'' Upper" "1 < length (matches t)"
    by (simp_all add: t find_match_def new_match_def bye_match_def truthy_def)
  from resolved_match_is_final [of "''T''" three_started t "''2''" "bye_match ''2'' ''C'' Upper"
      "''A''" "''C''" 1
      "[Matchresult ''T'' ''2'' ''A'' ''C'', Matchresult ''T'' ''1'' ''A'' ''B'', Starttourney rev ''T'']"]
    t m
  show ?thesis by auto
qed

text \<open>
  C4 (the code departs from the claim). The loop of \<open>try_pair_pending\<close> that collects
  the eliminated teams takes, for a lower match with a winner that is not a bye, one
  team: \<open>teamA\<close> when \<open>teamB\<close> is the winner, and \<open>teamB\<close> otherwise. That is the
  losing side when the winner is one of the two sides, which \<open>matchresult\<close> does not
  check. In the tournament G match "6" is B against A in the lower bracket. The report
  that C beat A in match "6" is recorded; the match has the winner C, so both of its
  sides, B and A, have lost it, and C is the only team that is not the losing side of a
  lower match. But the loop eliminates A alone: the alive teams are B and C, the
  tournament is not finished and has no champion.
\<close>

theorem alive_after_report_by_third_team:
  "map_option (\<lambda>t. find_match t ''6'') (get_tournament ''G'' lower_match_world)
     = Some (Some (new_match ''6'' ''B'' ''A'' Lower))
   \<and> map_option (map fst \<circ> teams) (get_tournament ''G'' lower_match_world) = Some [''A'', ''B'', ''C'']
   \<and> map_option alive (get_tournament ''G'' lower_match_world) = Some [''A'', ''B'', ''C'']
   \<and> fst (matchresult ''G'' ''6'' ''C'' ''A'' lower_match_world) = Recorded
   \<and> map_option (\<lambda>t. find_match t ''6'')
        (get_tournament ''G'' (snd (matchresult ''G'' ''6'' ''C'' ''A'' lower_match_world)))
     = Some (Some ((new_match ''6'' ''B'' ''A'' Lower)\<lparr>winner := Some ''C''\<rparr>))
   \<and> map_option (\<lambda>t. filter (\<lambda>m. bracket m = Lower \<and> \<not> bye m \<and> winner m \<noteq> None) (matches t))
        (get_tournament ''G'' (snd (matchresult ''G'' ''6'' ''C'' ''A'' lower_match_world)))
     = Some [(new_match ''6'' ''B'' ''A'' Lower)\<lparr>winner := Some ''C''\<rparr>]
   \<and> losing_side ''A'' ((new_match ''6'' ''B'' ''A'' Lower)\<lparr>winner := Some ''C''\<rparr>)
   \<and> losing_side ''B'' ((new_match ''6'' ''B'' ''A'' Lower)\<lparr>winner := Some ''C''\<rparr>)
   \<and> \<not> losing_side ''C'' ((new_match ''6'' ''B'' ''A'' Lower)\<lparr>winner := Some ''C''\<rparr>)
   \<and> map_option alive (get_tournament ''G'' (snd (matchresult ''G'' ''6'' ''C'' ''A'' lower_match_world)))
     = Some [''B'', ''C'']
   \<and> map_option status (get_tournament ''G'' (snd (matchresult ''G'' ''6'' ''C'' ''A'' lower_match_world)))
     = Some Running
   \<and> map_option champion (get_tournament ''G'' (snd (matchresult ''G'' ''6'' ''C'' ''A'' lower_match_world)))
     = Some None"
proof -
  have "losing_side ''A'' ((new_match ''6'' ''B'' ''A'' Lower)\<lparr>winner := Some ''C''\<rparr>)
     \<and> losing_side ''B'' ((new_match ''6'' ''B'' ''A'' Lower)\<lparr>winner := Some ''C''\<rparr>)
     \<and> \<not> losing_side ''C'' ((new_match ''6'' ''B'' ''A'' Lower)\<lparr>winner := Some ''C''\<rparr>)"
    by (simp add: losing_side_def sides_def new_match_def)
  then show ?thesis
    by (simp add: lower_match_world_def eval_defs)
qed




end
